theory Spec2Isabelle
  imports Main "HOL-Library.Sublist"
begin

section \<open>The crawl of unreleasedcommits (main.go), embedded in HOL\<close>

text \<open>
  The crawl lists the public repositories of an organization, looks up the latest
  release of each, collects the commits between the release tag and the default
  branch, and writes one JSON snapshot per repository, then a crawl timestamp.

  Pointers of the go-github structs are options (\<open>None\<close> is \<open>nil\<close>). The
  accessors \<open>GetX\<close> are those of go-github v62 (imported by main.go): generated
  methods on pointer receivers that return the zero value when the receiver or the
  field is \<open>nil\<close>. A plain field selection through a \<open>nil\<close> pointer, such as
  \<open>c.Commit.Author\<close> with \<open>c.Commit == nil\<close>, is a run-time panic of Go.
\<close>

subsection \<open>Data of the remote API\<close>

text \<open>\<open>time.Time\<close> as seconds relative to the Unix epoch; the zero value
  \<open>time.Time{}\<close> is January 1 of year 1, UTC.\<close>

type_synonym time = int

definition zero_time :: time where
  "zero_time = - 62135596800"

datatype error = Error string

record User =
  user_Login :: "string option"

record CommitAuthor =
  ca_Name :: "string option"
  ca_Date :: "time option"

record Commit =
  commit_Author :: "CommitAuthor option"
  commit_Message :: "string option"

record RepositoryCommit =
  rc_SHA :: "string option"
  rc_Author :: "User option"
  rc_Commit :: "Commit option"
  rc_HTMLURL :: "string option"

record Repository =
  repo_Name :: "string option"
  repo_DefaultBranch :: "string option"
  repo_HTMLURL :: "string option"

record RepositoryRelease =
  TagName :: "string option"
  PublishedAt :: "time option"

record ListOptions =
  Page :: nat
  PerPage :: nat

record RepositoryListByOrgOptions =
  Type :: string
  ListOptions :: ListOptions

record Response =
  NextPage :: nat

text \<open>The nil-safe accessors used by main.go.\<close>

definition GetLogin :: "User option \<Rightarrow> string" where
  "GetLogin u = (case u of None \<Rightarrow> [] | Some u' \<Rightarrow> (case user_Login u' of None \<Rightarrow> [] | Some s \<Rightarrow> s))"

definition GetName :: "CommitAuthor option \<Rightarrow> string" where
  "GetName a = (case a of None \<Rightarrow> [] | Some a' \<Rightarrow> (case ca_Name a' of None \<Rightarrow> [] | Some s \<Rightarrow> s))"

definition GetDate :: "CommitAuthor option \<Rightarrow> time" where
  "GetDate a = (case a of None \<Rightarrow> zero_time | Some a' \<Rightarrow> (case ca_Date a' of None \<Rightarrow> zero_time | Some t \<Rightarrow> t))"

definition GetMessage :: "Commit option \<Rightarrow> string" where
  "GetMessage m = (case m of None \<Rightarrow> [] | Some m' \<Rightarrow> (case commit_Message m' of None \<Rightarrow> [] | Some s \<Rightarrow> s))"

definition GetSHA :: "RepositoryCommit \<Rightarrow> string" where
  "GetSHA c = (case rc_SHA c of None \<Rightarrow> [] | Some s \<Rightarrow> s)"

definition GetHTMLURL :: "RepositoryCommit \<Rightarrow> string" where
  "GetHTMLURL c = (case rc_HTMLURL c of None \<Rightarrow> [] | Some s \<Rightarrow> s)"

definition repo_GetName :: "Repository \<Rightarrow> string" where
  "repo_GetName r = (case repo_Name r of None \<Rightarrow> [] | Some s \<Rightarrow> s)"

definition repo_GetDefaultBranch :: "Repository option \<Rightarrow> string" where
  "repo_GetDefaultBranch r =
     (case r of None \<Rightarrow> [] | Some r' \<Rightarrow> (case repo_DefaultBranch r' of None \<Rightarrow> [] | Some s \<Rightarrow> s))"

definition repo_GetHTMLURL :: "Repository option \<Rightarrow> string" where
  "repo_GetHTMLURL r =
     (case r of None \<Rightarrow> [] | Some r' \<Rightarrow> (case repo_HTMLURL r' of None \<Rightarrow> [] | Some s \<Rightarrow> s))"

definition GetTagName :: "RepositoryRelease option \<Rightarrow> string" where
  "GetTagName r = (case r of None \<Rightarrow> [] | Some r' \<Rightarrow> (case TagName r' of None \<Rightarrow> [] | Some s \<Rightarrow> s))"

definition GetPublishedAt :: "RepositoryRelease option \<Rightarrow> time" where
  "GetPublishedAt r =
     (case r of None \<Rightarrow> zero_time | Some r' \<Rightarrow> (case PublishedAt r' of None \<Rightarrow> zero_time | Some t \<Rightarrow> t))"

text \<open>
  The client: one response per request, the same throughout a crawl. \<open>Inl\<close> is a
  non-nil \<open>err\<close>. A latest release and a repository detail are pointers and may
  be \<open>nil\<close> beside a \<open>nil\<close> error; the comparison and the response are
  selected from directly (\<open>comp.Commits\<close>, \<open>resp.NextPage\<close>), so they are
  values, as are the elements of the slices decoded from the remote's arrays.
\<close>

record client =
  ListByOrg :: "string \<Rightarrow> RepositoryListByOrgOptions \<Rightarrow> error + (Repository list \<times> Response)"
  GetLatestRelease :: "string \<Rightarrow> string \<Rightarrow> error + RepositoryRelease option"
  Get :: "string \<Rightarrow> string \<Rightarrow> error + Repository option"
  CompareCommits ::
    "string \<Rightarrow> string \<Rightarrow> string \<Rightarrow> string \<Rightarrow> ListOptions \<Rightarrow> error + (RepositoryCommit list \<times> Response)"

subsection \<open>listPublicRepos\<close>

text \<open>
  The \<open>for\<close> loop has no bound of its own: it ends when the source reports no
  next page, so against an arbitrary source it may run forever. \<open>None\<close> is a
  loop that never returns. \<open>limit\<close> is a Go \<open>int\<close> and may be negative.
\<close>

partial_function (option) listPublicRepos_loop ::
  "client \<Rightarrow> string \<Rightarrow> int \<Rightarrow> RepositoryListByOrgOptions \<Rightarrow> Repository list
     \<Rightarrow> (error + Repository list) option"
where
  "listPublicRepos_loop c owner limit opt allRepos =
     (case ListByOrg c owner opt of
        Inl err \<Rightarrow> Some (Inl err)
      | Inr (repos, resp) \<Rightarrow>
          (let allRepos' = allRepos @ repos in
           if limit > 0 \<and> int (length allRepos') \<ge> limit
           then Some (Inr (take (nat limit) allRepos'))
           else if NextPage resp = 0 then Some (Inr allRepos')
           else listPublicRepos_loop c owner limit
                  (opt\<lparr>ListOptions := (ListOptions opt)\<lparr>Page := NextPage resp\<rparr>\<rparr>) allRepos'))"

definition listPublicRepos :: "client \<Rightarrow> string \<Rightarrow> int \<Rightarrow> (error + Repository list) option" where
  "listPublicRepos c owner limit =
     listPublicRepos_loop c owner limit
       \<lparr>Type = ''public'', ListOptions = \<lparr>Page = 0, PerPage = 100\<rparr>\<rparr> []"

subsection \<open>checkLatestRelease\<close>

definition checkLatestRelease :: "client \<Rightarrow> string \<Rightarrow> string \<Rightarrow> bool \<times> RepositoryRelease option" where
  "checkLatestRelease c owner repo =
     (case GetLatestRelease c owner repo of
        Inl err \<Rightarrow> (False, None)
      | Inr rel \<Rightarrow>
          if rel = None \<or> GetTagName rel = [] then (False, None) else (True, rel))"

subsection \<open>compareAllCommits\<close>

partial_function (option) compareAllCommits_loop ::
  "client \<Rightarrow> string \<Rightarrow> string \<Rightarrow> string \<Rightarrow> string \<Rightarrow> nat \<Rightarrow> nat \<Rightarrow> RepositoryCommit list
     \<Rightarrow> (error + RepositoryCommit list) option"
where
  "compareAllCommits_loop c owner repo base head perPage page all =
     (case CompareCommits c owner repo base head \<lparr>Page = page, PerPage = perPage\<rparr> of
        Inl err \<Rightarrow> Some (Inl err)
      | Inr (commits, resp) \<Rightarrow>
          (let all' = all @ commits in
           if NextPage resp = 0 \<or> length commits < perPage then Some (Inr all')
           else compareAllCommits_loop c owner repo base head perPage (NextPage resp) all'))"

definition compareAllCommits ::
  "client \<Rightarrow> string \<Rightarrow> string \<Rightarrow> string \<Rightarrow> string \<Rightarrow> (error + RepositoryCommit list) option" where
  "compareAllCommits c owner repo base head =
     compareAllCommits_loop c owner repo base head 100 1 []"

subsection \<open>A simulated paginated source\<close>

text \<open>
  The source holds a list of items and serves it in pages of the requested size, as
  the remote API does: page numbers start at 1, a request without a page number (0)
  is for page 1, a request without a page size (0) gets the default of 30, and the
  response names the next page, or 0 after the last one.
\<close>

definition page_size :: "ListOptions \<Rightarrow> nat" where
  "page_size opt = (if PerPage opt = 0 then 30 else PerPage opt)"

definition page_number :: "ListOptions \<Rightarrow> nat" where
  "page_number opt = (if Page opt = 0 then 1 else Page opt)"

definition paged :: "'a list \<Rightarrow> ListOptions \<Rightarrow> 'a list \<times> Response" where
  "paged items opt =
     (let p = page_number opt; P = page_size opt in
      (take P (drop ((p - 1) * P) items),
       \<lparr>NextPage = (if p * P < length items then p + 1 else 0)\<rparr>))"

text \<open>The number of pages the source has, and the pages themselves, in order. An
  empty source still answers the first request, with an empty page.\<close>

definition page_count :: "nat \<Rightarrow> 'a list \<Rightarrow> nat" where
  "page_count P items = max 1 ((length items + P - 1) div P)"

definition pages_served :: "nat \<Rightarrow> 'a list \<Rightarrow> 'a list list" where
  "pages_served P items =
     map (\<lambda>p. fst (paged items \<lparr>Page = p, PerPage = P\<rparr>)) [1 ..< Suc (page_count P items)]"

text \<open>A client whose two paginated endpoints are such sources; its other two
  endpoints find nothing.\<close>

definition sim_client :: "Repository list \<Rightarrow> RepositoryCommit list \<Rightarrow> client" where
  "sim_client repos commits =
     \<lparr>ListByOrg = (\<lambda>owner opt. Inr (paged repos (ListOptions opt))),
      GetLatestRelease = (\<lambda>owner repo. Inl (Error ''404 Not Found'')),
      Get = (\<lambda>owner repo. Inl (Error ''404 Not Found'')),
      CompareCommits = (\<lambda>owner repo base head opt. Inr (paged commits opt))\<rparr>"

subsection \<open>The records written by the crawl\<close>

record CommitInfo =
  SHA :: string
  Author :: string
  Message :: string
  Timestamp :: time
  URL :: string

record RepositoryData =
  Owner :: string
  Name :: string
  DefaultBranch :: string
  LatestReleaseTag :: string
  LatestReleaseTime :: time
  UnreleasedCommits :: "CommitInfo list"
  RepositoryURL :: string

record TimestampData =
  LastCrawled :: time

subsection \<open>From raw commits to commit records\<close>

text \<open>The author of a commit, lines 272 to 277 of runCrawl.\<close>

definition resolveAuthor :: "RepositoryCommit \<Rightarrow> string" where
  "resolveAuthor c =
     (if rc_Author c \<noteq> None \<and> GetLogin (rc_Author c) \<noteq> [] then GetLogin (rc_Author c)
      else if rc_Commit c \<noteq> None \<and> commit_Author (the (rc_Commit c)) \<noteq> None
              \<and> GetName (commit_Author (the (rc_Commit c))) \<noteq> []
      then GetName (commit_Author (the (rc_Commit c)))
      else ''unknown'')"

text \<open>
  What ends a crawl early: \<open>log.Fatal\<close>, or the panic of a selection through a
  \<open>nil\<close> pointer. In the composite literal of \<open>CommitInfo\<close>,
  \<open>c.Commit.GetMessage()\<close> is an accessor call and accepts a \<open>nil\<close>
  \<open>c.Commit\<close>; \<open>c.Commit.Author.GetDate()\<close> first selects the field
  \<open>Author\<close> of \<open>c.Commit\<close>, which panics when \<open>c.Commit\<close> is
  \<open>nil\<close>, and then calls the accessor, which accepts a \<open>nil\<close> author.
\<close>

datatype abort = Fatal string | NilPointerDereference

definition toCommitInfo :: "RepositoryCommit \<Rightarrow> abort + CommitInfo" where
  "toCommitInfo c =
     (let author = resolveAuthor c in
      case rc_Commit c of
        None \<Rightarrow> Inl NilPointerDereference
      | Some m \<Rightarrow>
          Inr \<lparr>SHA = GetSHA c, Author = author, Message = GetMessage (rc_Commit c),
               Timestamp = GetDate (commit_Author m), URL = GetHTMLURL c\<rparr>)"

fun commitInfos_loop :: "CommitInfo list \<Rightarrow> RepositoryCommit list \<Rightarrow> abort + CommitInfo list" where
  "commitInfos_loop commitInfos [] = Inr commitInfos"
| "commitInfos_loop commitInfos (c # commits) =
     (case toCommitInfo c of
        Inl a \<Rightarrow> Inl a
      | Inr info \<Rightarrow> commitInfos_loop (commitInfos @ [info]) commits)"

text \<open>The reversal in place, lines 289 to 291: \<open>j\<close> starts at \<open>len - 1\<close>,
  which is \<open>-1\<close> for an empty slice; both indices are in range whenever
  \<open>i < j\<close>.\<close>

function reverse_loop :: "nat \<Rightarrow> int \<Rightarrow> 'a list \<Rightarrow> 'a list" where
  "reverse_loop i j xs =
     (if int i < j then reverse_loop (i + 1) (j - 1) (xs[i := xs ! nat j, nat j := xs ! i])
      else xs)"
  by pat_completeness auto
termination
  by (relation "measure (\<lambda>(i, j, xs). nat (j - int i))") auto

declare reverse_loop.simps [simp del]

definition reverseCommits :: "'a list \<Rightarrow> 'a list" where
  "reverseCommits commitInfos = reverse_loop 0 (int (length commitInfos) - 1) commitInfos"

text \<open>The record normalizer: the part of the loop body between the collected
  commits and the write, lines 270 to 301.\<close>

definition normalize ::
  "string \<Rightarrow> string \<Rightarrow> string \<Rightarrow> string \<Rightarrow> time \<Rightarrow> RepositoryCommit list \<Rightarrow> string
     \<Rightarrow> abort + RepositoryData" where
  "normalize owner repoName defaultBranch tagName releaseTime commits url =
     (case commitInfos_loop [] commits of
        Inl a \<Rightarrow> Inl a
      | Inr commitInfos \<Rightarrow>
          Inr \<lparr>Owner = owner, Name = repoName, DefaultBranch = defaultBranch,
               LatestReleaseTag = tagName, LatestReleaseTime = releaseTime,
               UnreleasedCommits = reverseCommits commitInfos, RepositoryURL = url\<rparr>)"

subsection \<open>The file system and writeJSON\<close>

text \<open>
  A file holds an encoded value, or is left truncated by a write that failed after
  the file was created (\<open>os.Create\<close> empties a file that exists).
  \<open>os.Create\<close> and the encoder each may fail; which paths fail is given by the
  world the crawl runs in.
\<close>

datatype payload = RepoJSON RepositoryData | TimestampJSON TimestampData

datatype file_content = Encoded payload | Truncated

type_synonym file_system = "string \<rightharpoonup> file_content"

record world =
  github :: client
  GITHUB_TOKEN :: string
  mkdir_err :: "error option"
  create_err :: "string \<Rightarrow> error option"
  encode_err :: "string \<Rightarrow> error option"
  now :: time

definition writeJSON :: "world \<Rightarrow> file_system \<Rightarrow> string \<Rightarrow> payload \<Rightarrow> error option \<times> file_system" where
  "writeJSON w fs filename data =
     (case create_err w filename of
        Some err \<Rightarrow> (Some err, fs)
      | None \<Rightarrow>
          (case encode_err w filename of
             Some err \<Rightarrow> (Some err, fs(filename \<mapsto> Truncated))
           | None \<Rightarrow> (None, fs(filename \<mapsto> Encoded data))))"

text \<open>
  \<open>filepath.Join\<close> of two elements, with the separator \<open>/\<close>: the elements
  are joined and the result goes through \<open>filepath.Clean\<close>, which drops empty and
  \<open>.\<close> elements and lets each \<open>..\<close> element remove the element before it (a
  \<open>..\<close> with nothing to remove stays in a relative path and is dropped in a
  rooted one); an empty result is \<open>.\<close>.
\<close>

fun split_sep :: "string \<Rightarrow> string \<Rightarrow> string list" where
  "split_sep cur [] = [cur]"
| "split_sep cur (ch # rest) =
     (if ch = CHR ''/'' then cur # split_sep [] rest else split_sep (cur @ [ch]) rest)"

fun clean_elems :: "bool \<Rightarrow> string list \<Rightarrow> string list \<Rightarrow> string list" where
  "clean_elems rooted out [] = out"
| "clean_elems rooted out (e # es) =
     (if e = [] \<or> e = ''.'' then clean_elems rooted out es
      else if e = ''..'' then
        (if out \<noteq> [] \<and> last out \<noteq> ''..'' then clean_elems rooted (butlast out) es
         else if rooted then clean_elems rooted out es
         else clean_elems rooted (out @ [''..'']) es)
      else clean_elems rooted (out @ [e]) es)"

fun join_sep :: "string list \<Rightarrow> string" where
  "join_sep [] = []"
| "join_sep [e] = e"
| "join_sep (e # es) = e @ ''/'' @ join_sep es"

definition Clean :: "string \<Rightarrow> string" where
  "Clean path =
     (if path = [] then ''.''
      else
        (let rooted = (hd path = CHR ''/'');
             elems = join_sep (clean_elems rooted [] (split_sep [] path));
             cleaned = (if rooted then ''/'' @ elems else elems)
         in if cleaned = [] then ''.'' else cleaned))"

definition Join :: "string \<Rightarrow> string \<Rightarrow> string" where
  "Join a b =
     (if a \<noteq> [] then Clean (a @ ''/'' @ b) else if b \<noteq> [] then Clean b else [])"

text \<open>The two paths the crawl writes to, lines 303 and 314, with
  \<open>outputDir = "data"\<close>.\<close>

definition snapshot_path :: "string \<Rightarrow> string" where
  "snapshot_path repoName = Join ''data'' (repoName @ ''.json'')"

definition timestamp_path :: string where
  "timestamp_path = Join ''data'' ''timestamp.json''"

subsection \<open>runCrawl\<close>

text \<open>Every line the crawl prints is an event; times are kept as values, not
  formatted.\<close>

datatype event =
    FetchingRepositories string
  | FoundRepositories nat
  | Processing nat nat string
  | SkippingNoReleases string
  | ErrorRepoDetails error
  | LatestRelease string time
  | ErrorComparingCommits error
  | ErrorWritingJSON error
  | Saved nat string
  | WarnTimestamp error
  | RecordedTimestamp time
  | CrawlComplete nat

record crawl_state =
  files :: file_system
  out :: "event list"
  processedCount :: nat

definition emit :: "event \<Rightarrow> crawl_state \<Rightarrow> crawl_state" where
  "emit e st = st\<lparr>out := out st @ [e]\<rparr>"

text \<open>One iteration of the loop over the repositories, lines 243 to 310. A
  \<open>continue\<close> returns the state for the next iteration.\<close>

definition processRepo ::
  "world \<Rightarrow> string \<Rightarrow> nat \<Rightarrow> crawl_state \<Rightarrow> nat \<Rightarrow> Repository \<Rightarrow> (abort + crawl_state) option" where
  "processRepo w owner n st0 i repo =
     (let repoName = repo_GetName repo;
          st1 = emit (Processing (i + 1) n repoName) st0;
          (hasRelease, releaseData) = checkLatestRelease (github w) owner repoName
      in if \<not> hasRelease then Some (Inr (emit (SkippingNoReleases repoName) st1))
         else
           case Get (github w) owner repoName of
             Inl err \<Rightarrow> Some (Inr (emit (ErrorRepoDetails err) st1))
           | Inr repoDetail \<Rightarrow>
               (let defaultBranch = repo_GetDefaultBranch repoDetail;
                    tagName = GetTagName releaseData;
                    releaseTime = GetPublishedAt releaseData;
                    st2 = emit (LatestRelease tagName releaseTime) st1
                in case compareAllCommits (github w) owner repoName tagName defaultBranch of
                     None \<Rightarrow> None
                   | Some (Inl err) \<Rightarrow> Some (Inr (emit (ErrorComparingCommits err) st2))
                   | Some (Inr commits) \<Rightarrow>
                       (case normalize owner repoName defaultBranch tagName releaseTime commits
                               (repo_GetHTMLURL repoDetail) of
                          Inl a \<Rightarrow> Some (Inl a)
                        | Inr repoData \<Rightarrow>
                            (let filename = snapshot_path repoName;
                                 (werr, fs) = writeJSON w (files st2) filename (RepoJSON repoData);
                                 st3 = st2\<lparr>files := fs\<rparr>
                             in case werr of
                                  Some err \<Rightarrow> Some (Inr (emit (ErrorWritingJSON err) st3))
                                | None \<Rightarrow>
                                    Some (Inr ((emit (Saved (length (UnreleasedCommits repoData)) filename) st3)
                                                 \<lparr>processedCount := processedCount st3 + 1\<rparr>))))))"

fun crawl_loop ::
  "world \<Rightarrow> string \<Rightarrow> nat \<Rightarrow> crawl_state \<Rightarrow> nat \<Rightarrow> Repository list \<Rightarrow> (abort + crawl_state) option" where
  "crawl_loop w owner n st i [] = Some (Inr st)"
| "crawl_loop w owner n st i (repo # repos) =
     (case processRepo w owner n st i repo of
        None \<Rightarrow> None
      | Some (Inl a) \<Rightarrow> Some (Inl a)
      | Some (Inr st') \<Rightarrow> crawl_loop w owner n st' (i + 1) repos)"

text \<open>After the loop, lines 313 to 321: the crawl timestamp, then the summary.\<close>

definition finish :: "world \<Rightarrow> crawl_state \<Rightarrow> crawl_state" where
  "finish w st =
     (let crawlTime = now w;
          (werr, fs) = writeJSON w (files st) timestamp_path (TimestampJSON \<lparr>LastCrawled = crawlTime\<rparr>);
          st1 = st\<lparr>files := fs\<rparr>;
          st2 = (case werr of
                   Some err \<Rightarrow> emit (WarnTimestamp err) st1
                 | None \<Rightarrow> emit (RecordedTimestamp crawlTime) st1)
      in emit (CrawlComplete (processedCount st2)) st2)"

text \<open>
  \<open>strings.TrimSpace\<close>: a Go string is a sequence of bytes, and the white space
  of Unicode (\<open>unicode.IsSpace\<close>) is removed from both ends, rune by rune. The
  white-space runes, in UTF-8: the six of ASCII, U+0085, U+00A0, U+1680, U+2000 to
  U+200A, U+2028, U+2029, U+202F, U+205F and U+3000. A byte sequence that is not one
  of these encodings ends the trimming.
\<close>

definition space_encodings :: "string list" where
  "space_encodings =
     [[CHR 0x09], [CHR 0x0A], [CHR 0x0B], [CHR 0x0C], [CHR 0x0D], [CHR 0x20],
      [CHR 0xC2, CHR 0x85], [CHR 0xC2, CHR 0xA0], [CHR 0xE1, CHR 0x9A, CHR 0x80],
      [CHR 0xE2, CHR 0x80, CHR 0x80], [CHR 0xE2, CHR 0x80, CHR 0x81], [CHR 0xE2, CHR 0x80, CHR 0x82],
      [CHR 0xE2, CHR 0x80, CHR 0x83], [CHR 0xE2, CHR 0x80, CHR 0x84], [CHR 0xE2, CHR 0x80, CHR 0x85],
      [CHR 0xE2, CHR 0x80, CHR 0x86], [CHR 0xE2, CHR 0x80, CHR 0x87], [CHR 0xE2, CHR 0x80, CHR 0x88],
      [CHR 0xE2, CHR 0x80, CHR 0x89], [CHR 0xE2, CHR 0x80, CHR 0x8A], [CHR 0xE2, CHR 0x80, CHR 0xA8],
      [CHR 0xE2, CHR 0x80, CHR 0xA9], [CHR 0xE2, CHR 0x80, CHR 0xAF], [CHR 0xE2, CHR 0x81, CHR 0x9F],
      [CHR 0xE3, CHR 0x80, CHR 0x80]]"

function strip_prefixes :: "string list \<Rightarrow> string \<Rightarrow> string" where
  "strip_prefixes pats s =
     (case find (\<lambda>p. p \<noteq> [] \<and> prefix p s) pats of
        None \<Rightarrow> s
      | Some p \<Rightarrow> strip_prefixes pats (drop (length p) s))"
  by pat_completeness auto
termination
proof (relation "measure (\<lambda>(pats, s). length s)")
  show "wf (measure (\<lambda>(pats, s). length s))" by simp
next
  fix pats :: "string list" and s p :: string
  assume "find (\<lambda>p. p \<noteq> [] \<and> prefix p s) pats = Some p"
  then have "p \<noteq> []" and "prefix p s"
    by (auto simp: find_Some_iff)
  then have "length (drop (length p) s) < length s"
    by (cases s) (auto simp: prefix_def)
  then show "((pats, drop (length p) s), (pats, s)) \<in> measure (\<lambda>(pats, s). length s)"
    by simp
qed

declare strip_prefixes.simps [simp del]

definition TrimSpace :: "string \<Rightarrow> string" where
  "TrimSpace s =
     rev (strip_prefixes (map rev space_encodings) (rev (strip_prefixes space_encodings s)))"

definition runCrawl :: "world \<Rightarrow> file_system \<Rightarrow> string \<Rightarrow> int \<Rightarrow> (abort + crawl_state) option" where
  "runCrawl w disk owner limit =
     (if TrimSpace (GITHUB_TOKEN w) = [] then Some (Inl (Fatal ''GITHUB_TOKEN environment variable is required''))
      else
        (let st0 = emit (FetchingRepositories owner) \<lparr>files = disk, out = [], processedCount = 0\<rparr>
         in case mkdir_err w of
              Some err \<Rightarrow> Some (Inl (Fatal ''Failed to create output directory''))
            | None \<Rightarrow>
                (case listPublicRepos (github w) owner limit of
                   None \<Rightarrow> None
                 | Some (Inl err) \<Rightarrow> Some (Inl (Fatal ''Failed to list repositories''))
                 | Some (Inr repos) \<Rightarrow>
                     (let st1 = emit (FoundRepositories (length repos)) st0
                      in case crawl_loop w owner (length repos) st1 0 repos of
                           None \<Rightarrow> None
                         | Some (Inl a) \<Rightarrow> Some (Inl a)
                         | Some (Inr st) \<Rightarrow> Some (Inr (finish w st))))))"

subsection \<open>Observations on the output of a crawl\<close>

text \<open>The crawl keeps one counter, \<open>processedCount\<close>. Skips and failures are
  lines of the output; these functions count them.\<close>

fun is_skip :: "event \<Rightarrow> bool" where
  "is_skip (SkippingNoReleases name) = True"
| "is_skip e = False"

fun is_failure :: "event \<Rightarrow> bool" where
  "is_failure (ErrorRepoDetails err) = True"
| "is_failure (ErrorComparingCommits err) = True"
| "is_failure (ErrorWritingJSON err) = True"
| "is_failure e = False"

fun is_saved :: "event \<Rightarrow> bool" where
  "is_saved (Saved k filename) = True"
| "is_saved e = False"

definition skips :: "event list \<Rightarrow> nat" where
  "skips evs = length (filter is_skip evs)"

definition failures :: "event list \<Rightarrow> nat" where
  "failures evs = length (filter is_failure evs)"

definition saves :: "event list \<Rightarrow> nat" where
  "saves evs = length (filter is_saved evs)"

text \<open>The names of the repositories whose iteration began, in order.\<close>

fun visited :: "event list \<Rightarrow> string list" where
  "visited [] = []"
| "visited (Processing i n name # evs) = name # visited evs"
| "visited (e # evs) = visited evs"

text \<open>The three failures of an iteration that the loop answers with
  \<open>continue\<close>: the repository detail, the commit collection, the write of the
  snapshot. The last needs the commits to have their metadata, or the iteration
  panics before it writes.\<close>

datatype failure = DetailLookupFailed | CommitCollectionFailed | PersistenceFailed

definition repo_failure :: "world \<Rightarrow> string \<Rightarrow> Repository \<Rightarrow> failure option" where
  "repo_failure w owner repo =
     (let repoName = repo_GetName repo;
          (hasRelease, releaseData) = checkLatestRelease (github w) owner repoName
      in if \<not> hasRelease then None
         else
           case Get (github w) owner repoName of
             Inl err \<Rightarrow> Some DetailLookupFailed
           | Inr repoDetail \<Rightarrow>
               (case compareAllCommits (github w) owner repoName (GetTagName releaseData)
                       (repo_GetDefaultBranch repoDetail) of
                  None \<Rightarrow> None
                | Some (Inl err) \<Rightarrow> Some CommitCollectionFailed
                | Some (Inr commits) \<Rightarrow>
                    if list_all (\<lambda>c. rc_Commit c \<noteq> None) commits
                       \<and> (create_err w (snapshot_path repoName) \<noteq> None
                            \<or> encode_err w (snapshot_path repoName) \<noteq> None)
                    then Some PersistenceFailed else None))"

text \<open>An iteration comes to an end without a panic: the commit collection
  returns, and every commit collected has its metadata.\<close>

definition repo_completes :: "world \<Rightarrow> string \<Rightarrow> Repository \<Rightarrow> bool" where
  "repo_completes w owner repo =
     (let repoName = repo_GetName repo;
          (hasRelease, releaseData) = checkLatestRelease (github w) owner repoName
      in if \<not> hasRelease then True
         else
           case Get (github w) owner repoName of
             Inl err \<Rightarrow> True
           | Inr repoDetail \<Rightarrow>
               (case compareAllCommits (github w) owner repoName (GetTagName releaseData)
                       (repo_GetDefaultBranch repoDetail) of
                  None \<Rightarrow> False
                | Some (Inl err) \<Rightarrow> True
                | Some (Inr commits) \<Rightarrow> list_all (\<lambda>c. rc_Commit c \<noteq> None) commits))"

subsection \<open>Author resolution as the specification words it\<close>

text \<open>The login of the platform-linked author, when that author is present with a
  non-empty login; the display name of the author in the commit metadata, when
  present and non-empty; the first of the two that exists, or "unknown".\<close>

definition linked_login :: "RepositoryCommit \<Rightarrow> string option" where
  "linked_login c =
     (case rc_Author c of
        None \<Rightarrow> None
      | Some u \<Rightarrow> (case user_Login u of None \<Rightarrow> None | Some l \<Rightarrow> if l = [] then None else Some l))"

definition metadata_name :: "RepositoryCommit \<Rightarrow> string option" where
  "metadata_name c =
     (case rc_Commit c of
        None \<Rightarrow> None
      | Some m \<Rightarrow>
          (case commit_Author m of
             None \<Rightarrow> None
           | Some a \<Rightarrow> (case ca_Name a of None \<Rightarrow> None | Some n \<Rightarrow> if n = [] then None else Some n)))"

definition spec_author :: "RepositoryCommit \<Rightarrow> string" where
  "spec_author c =
     (case linked_login c of
        Some l \<Rightarrow> l
      | None \<Rightarrow> (case metadata_name c of Some n \<Rightarrow> n | None \<Rightarrow> ''unknown''))"

text \<open>The authored timestamp of a raw commit.\<close>

definition authored :: "RepositoryCommit \<Rightarrow> time" where
  "authored c = (case rc_Commit c of None \<Rightarrow> zero_time | Some m \<Rightarrow> GetDate (commit_Author m))"

subsection \<open>Example data\<close>

definition raw_commit :: "string option \<Rightarrow> string option \<Rightarrow> time \<Rightarrow> RepositoryCommit" where
  "raw_commit login name t =
     \<lparr>rc_SHA = None,
      rc_Author = (case login of None \<Rightarrow> None | Some l \<Rightarrow> Some \<lparr>user_Login = Some l\<rparr>),
      rc_Commit = Some \<lparr>commit_Author = Some \<lparr>ca_Name = name, ca_Date = Some t\<rparr>, commit_Message = None\<rparr>,
      rc_HTMLURL = None\<rparr>"

definition commit_nil_metadata :: RepositoryCommit where
  "commit_nil_metadata =
     \<lparr>rc_SHA = Some ''abc'', rc_Author = Some \<lparr>user_Login = Some ''alice''\<rparr>, rc_Commit = None,
      rc_HTMLURL = None\<rparr>"

definition commit_nil_metadata_author :: RepositoryCommit where
  "commit_nil_metadata_author =
     \<lparr>rc_SHA = Some ''abc'', rc_Author = Some \<lparr>user_Login = Some ''alice''\<rparr>,
      rc_Commit = Some \<lparr>commit_Author = None, commit_Message = Some ''fix''\<rparr>, rc_HTMLURL = None\<rparr>"

definition ex_repo :: "string \<Rightarrow> Repository" where
  "ex_repo name = \<lparr>repo_Name = Some name, repo_DefaultBranch = None, repo_HTMLURL = None\<rparr>"

definition ex_release :: RepositoryRelease where
  "ex_release = \<lparr>TagName = Some ''v1'', PublishedAt = Some 100\<rparr>"

text \<open>
  An organization of eight repositories: \<open>a\<close> has a release and three commits
  since; \<open>b\<close> has no release (the lookup fails), \<open>g\<close> none either (a
  \<open>nil\<close> release), \<open>h\<close> a release with an empty tag; \<open>c\<close> has a release
  and no commit since; the detail of \<open>d\<close> cannot be fetched; the comparison of
  \<open>e\<close> fails; \<open>f\<close> is as \<open>c\<close>, and its snapshot cannot be created. The
  encoding of the timestamp fails.
\<close>

definition ex_client :: client where
  "ex_client =
     \<lparr>ListByOrg = (\<lambda>owner opt.
        Inr (paged (map ex_repo [''a'', ''b'', ''c'', ''d'', ''e'', ''f'', ''g'', ''h'']) (ListOptions opt))),
      GetLatestRelease = (\<lambda>owner repo.
        if repo = ''b'' then Inl (Error ''404 Not Found'')
        else if repo = ''g'' then Inr None
        else if repo = ''h'' then Inr (Some \<lparr>TagName = Some [], PublishedAt = Some 100\<rparr>)
        else Inr (Some ex_release)),
      Get = (\<lambda>owner repo.
        if repo = ''d'' then Inl (Error ''500 Internal Server Error'')
        else Inr (Some \<lparr>repo_Name = Some repo, repo_DefaultBranch = Some ''main'', repo_HTMLURL = None\<rparr>)),
      CompareCommits = (\<lambda>owner repo base head opt.
        if repo = ''e'' then Inl (Error ''502 Bad Gateway'')
        else Inr (paged (if repo = ''a''
                         then [raw_commit None (Some ''Bob'') 1, raw_commit None None 2,
                               raw_commit (Some ''alice'') (Some ''Alice Smith'') 3]
                         else []) opt))\<rparr>"

definition ex_world :: world where
  "ex_world =
     \<lparr>github = ex_client, GITHUB_TOKEN = ''token'', mkdir_err = None,
      create_err = (\<lambda>f. if f = snapshot_path ''f'' then Some (Error ''permission denied'') else None),
      encode_err = (\<lambda>f. if f = timestamp_path then Some (Error ''no space left on device'') else None),
      now = 1000\<rparr>"

text \<open>A world around a simulated source; all its writes succeed.\<close>

definition sim_world :: "Repository list \<Rightarrow> world" where
  "sim_world repos =
     \<lparr>github = sim_client repos [], GITHUB_TOKEN = ''token'', mkdir_err = None,
      create_err = (\<lambda>f. None), encode_err = (\<lambda>f. None), now = 1000\<rparr>"

text \<open>An organization of two repositories, \<open>a\<close> as above and one named
  \<open>timestamp\<close>, with a release and no commit since; all writes succeed.\<close>

definition collision_client :: client where
  "collision_client =
     ex_client\<lparr>ListByOrg := (\<lambda>owner opt.
        Inr (paged [ex_repo ''a'', ex_repo ''timestamp''] (ListOptions opt)))\<rparr>"

definition collision_world :: world where
  "collision_world =
     \<lparr>github = collision_client, GITHUB_TOKEN = ''token'', mkdir_err = None,
      create_err = (\<lambda>f. None), encode_err = (\<lambda>f. None), now = 1000\<rparr>"

section \<open>Properties\<close>

subsection \<open>Pagination\<close>

lemma page_size_pos: "0 < page_size opt"
  by (simp add: page_size_def)

lemma take_page_append: "take (k * P) xs @ take P (drop (k * P) xs) = take (Suc k * P) xs"
proof -
  have "Suc k * P = k * P + P" by simp
  then show ?thesis by (simp only: take_add)
qed

lemma listPublicRepos_loop_paged:
  assumes src: "ListByOrg c owner = (\<lambda>opt. Inr (paged items (ListOptions opt)))"
    and p: "page_number (ListOptions opt) = Suc k"
    and P: "page_size (ListOptions opt) = P"
    and acc: "acc = take (k * P) items"
    and lim: "limit \<le> 0 \<or> int (length acc) < limit"
  shows "listPublicRepos_loop c owner limit opt acc =
           Some (Inr (if 0 < limit \<and> limit \<le> int (length items) then take (nat limit) items else items))"
  using p P acc lim
proof (induction "length items - k * P" arbitrary: k opt acc rule: less_induct)
  case less
  let ?opt' = "opt\<lparr>ListOptions := (ListOptions opt)\<lparr>Page := Suc (Suc k)\<rparr>\<rparr>"
  let ?R = "Some (Inr (if 0 < limit \<and> limit \<le> int (length items) then take (nat limit) items else items))"
  define A where "A = take (Suc k * P) items"
  have Ppos: "0 < P" using less.prems(2) page_size_pos by auto
  have pg: "paged items (ListOptions opt) =
       (take P (drop (k * P) items), \<lparr>NextPage = (if Suc k * P < length items then Suc (Suc k) else 0)\<rparr>)"
    using less.prems(1,2) by (simp add: paged_def)
  have acc': "acc @ take P (drop (k * P) items) = A"
    unfolding A_def using less.prems(3) take_page_append by simp
  have step: "listPublicRepos_loop c owner limit opt acc =
      (if limit > 0 \<and> int (length A) \<ge> limit then Some (Inr (take (nat limit) A))
       else if \<not> Suc k * P < length items then Some (Inr A)
       else listPublicRepos_loop c owner limit ?opt' A)"
    apply (subst listPublicRepos_loop.simps)
    apply (simp only: src pg sum.case prod.case Let_def acc' Response.select_convs)
    apply simp
    done
  show ?case
  proof (cases "0 < limit \<and> limit \<le> int (length A)")
    case True
    then have "nat limit \<le> Suc k * P" and le: "limit \<le> int (length items)"
      unfolding A_def length_take by arith+
    then have "take (nat limit) A = take (nat limit) items"
      unfolding A_def by (simp only: take_take min_absorb1)
    with True le show ?thesis
      unfolding step by simp
  next
    case nolim: False
    show ?thesis
    proof (cases "Suc k * P < length items")
      case True
      have m: "length items - Suc k * P < length items - k * P"
        using True Ppos by simp
      have p': "page_number (ListOptions ?opt') = Suc (Suc k)"
        by (simp add: page_number_def)
      have P': "page_size (ListOptions ?opt') = P"
        using less.prems(2) by (auto simp add: page_size_def split: if_splits)
      have lim': "limit \<le> 0 \<or> int (length A) < limit"
        using nolim by linarith
      have rec: "listPublicRepos_loop c owner limit ?opt' A = ?R"
        using less.hyps [OF m p' P' A_def lim'] .
      show ?thesis
        unfolding step using nolim True rec by auto
    next
      case False
      then have all: "A = items" unfolding A_def by simp
      show ?thesis
        unfolding step using nolim False all by auto
    qed
  qed
qed

lemma listPublicRepos_paged:
  assumes src: "ListByOrg c owner = (\<lambda>opt. Inr (paged items (ListOptions opt)))"
  shows "listPublicRepos c owner limit =
           Some (Inr (if 0 < limit \<and> limit \<le> int (length items) then take (nat limit) items else items))"
  unfolding listPublicRepos_def
  by (rule listPublicRepos_loop_paged [OF src, where k = 0 and P = 100])
     (auto simp add: page_number_def page_size_def)

lemma compareAllCommits_loop_paged:
  assumes src: "CompareCommits c owner repo base head = paged_commits"
    and pc: "paged_commits = (\<lambda>opt. Inr (paged items opt))"
    and P: "P = (if perPage = 0 then 30 else perPage)"
    and acc: "acc = take (k * P) items"
  shows "compareAllCommits_loop c owner repo base head perPage (Suc k) acc = Some (Inr items)"
  using acc
proof (induction "length items - k * P" arbitrary: k acc rule: less_induct)
  case less
  define A where "A = take (Suc k * P) items"
  have Ppos: "0 < P" using P by simp
  have pg: "paged items \<lparr>Page = Suc k, PerPage = perPage\<rparr> =
       (take P (drop (k * P) items), \<lparr>NextPage = (if Suc k * P < length items then Suc (Suc k) else 0)\<rparr>)"
    using P by (simp add: paged_def page_number_def page_size_def)
  have acc': "acc @ take P (drop (k * P) items) = A"
    unfolding A_def using less.prems take_page_append by simp
  have short: "length (take P (drop (k * P) items)) < perPage \<Longrightarrow> \<not> Suc k * P < length items"
    using P by (cases "perPage = 0") simp_all
  have step: "compareAllCommits_loop c owner repo base head perPage (Suc k) acc =
      (if \<not> Suc k * P < length items then Some (Inr A)
       else compareAllCommits_loop c owner repo base head perPage (Suc (Suc k)) A)"
    apply (subst compareAllCommits_loop.simps)
    apply (simp only: src pc pg sum.case prod.case Let_def acc' Response.select_convs)
    using short apply auto
    done
  show ?case
  proof (cases "Suc k * P < length items")
    case True
    have m: "length items - Suc k * P < length items - k * P"
      using True Ppos by simp
    show ?thesis
      unfolding step using True less.hyps [OF m A_def] by simp
  next
    case False
    then have "A = items" unfolding A_def by simp
    with False show ?thesis unfolding step by simp
  qed
qed

lemma compareAllCommits_paged:
  assumes src: "CompareCommits c owner repo base head = (\<lambda>opt. Inr (paged items opt))"
  shows "compareAllCommits c owner repo base head = Some (Inr items)"
  unfolding compareAllCommits_def One_nat_def
  by (rule compareAllCommits_loop_paged [OF src refl, where k = 0 and P = 100]) simp_all

lemma concat_pages_upto:
  "0 < P \<Longrightarrow> concat (map (\<lambda>p. fst (paged items \<lparr>Page = p, PerPage = P\<rparr>)) [1 ..< Suc n]) = take (n * P) items"
proof (induction n)
  case 0
  then show ?case by simp
next
  case (Suc n)
  have "fst (paged items \<lparr>Page = Suc n, PerPage = P\<rparr>) = take P (drop (n * P) items)"
    using Suc.prems by (simp add: paged_def page_number_def page_size_def)
  with Suc show ?case
    using take_page_append [of n P items] by (simp del: mult_Suc)
qed

lemma concat_pages_served: "0 < P \<Longrightarrow> concat (pages_served P items) = items"
proof -
  assume P: "0 < P"
  have "length items \<le> page_count P items * P"
  proof -
    have "length items \<le> ((length items + P - 1) div P) * P"
    proof -
      have "(length items + P - 1) div P * P + (length items + P - 1) mod P = length items + P - 1"
        by (rule div_mult_mod_eq)
      moreover have "(length items + P - 1) mod P < P"
        using P by simp
      ultimately show ?thesis by linarith
    qed
    also have "\<dots> \<le> page_count P items * P"
      by (simp add: page_count_def)
    finally show ?thesis .
  qed
  then have "take (page_count P items * P) items = items" by simp
  then show ?thesis
    unfolding pages_served_def by (simp only: concat_pages_upto [OF P])
qed

lemma listPublicRepos_loop_limit:
  assumes ret: "listPublicRepos_loop c owner limit opt acc = Some y"
  shows "limit \<le> 0 \<longrightarrow> (\<forall>all. y = Inr all \<longrightarrow>
           (\<exists>rest. all = acc @ rest) \<and>
           (\<forall>k. 0 < k \<and> int (length acc) < k \<and> k \<le> int (length all) \<longrightarrow>
              listPublicRepos_loop c owner k opt acc = Some (Inr (take (nat k) all))))"
proof (rule listPublicRepos_loop.raw_induct [where P = "\<lambda>c owner limit opt acc y. limit \<le> 0 \<longrightarrow> (\<forall>all. y = Inr all \<longrightarrow>
           (\<exists>rest. all = acc @ rest) \<and>
           (\<forall>k. 0 < k \<and> int (length acc) < k \<and> k \<le> int (length all) \<longrightarrow>
              listPublicRepos_loop c owner k opt acc = Some (Inr (take (nat k) all))))", OF _ ret])
  fix f :: "client \<Rightarrow> string \<Rightarrow> int \<Rightarrow> RepositoryListByOrgOptions \<Rightarrow> Repository list
                \<Rightarrow> (error + Repository list) option"
    and c :: client and owner :: string and limit :: int and opt :: RepositoryListByOrgOptions
    and acc :: "Repository list" and y :: "error + Repository list"
  assume IH: "\<And>c owner limit opt acc y. f c owner limit opt acc = Some y \<Longrightarrow>
      limit \<le> 0 \<longrightarrow> (\<forall>all. y = Inr all \<longrightarrow>
           (\<exists>rest. all = acc @ rest) \<and>
           (\<forall>k. 0 < k \<and> int (length acc) < k \<and> k \<le> int (length all) \<longrightarrow>
              listPublicRepos_loop c owner k opt acc = Some (Inr (take (nat k) all))))"
  assume prem: "(case ListByOrg c owner opt of
        Inl err \<Rightarrow> Some (Inl err)
      | Inr (repos, resp) \<Rightarrow>
          (let allRepos' = acc @ repos in
           if limit > 0 \<and> int (length allRepos') \<ge> limit
           then Some (Inr (take (nat limit) allRepos'))
           else if NextPage resp = 0 then Some (Inr allRepos')
           else f c owner limit
                  (opt\<lparr>ListOptions := (ListOptions opt)\<lparr>Page := NextPage resp\<rparr>\<rparr>) allRepos')) = Some y"
  show "limit \<le> 0 \<longrightarrow> (\<forall>all. y = Inr all \<longrightarrow>
           (\<exists>rest. all = acc @ rest) \<and>
           (\<forall>k. 0 < k \<and> int (length acc) < k \<and> k \<le> int (length all) \<longrightarrow>
              listPublicRepos_loop c owner k opt acc = Some (Inr (take (nat k) all))))"
  proof (intro impI allI)
    fix all
    assume lim: "limit \<le> 0" and y: "y = Inr all"
    from prem lim y obtain repos resp where
      pg: "ListByOrg c owner opt = Inr (repos, resp)"
      by (cases "ListByOrg c owner opt") auto
    let ?opt' = "opt\<lparr>ListOptions := (ListOptions opt)\<lparr>Page := NextPage resp\<rparr>\<rparr>"
    have unf: "\<And>k. 0 < k \<Longrightarrow> listPublicRepos_loop c owner k opt acc =
        (if k \<le> int (length (acc @ repos)) then Some (Inr (take (nat k) (acc @ repos)))
         else if NextPage resp = 0 then Some (Inr (acc @ repos))
         else listPublicRepos_loop c owner k ?opt' (acc @ repos))"
      apply (subst listPublicRepos_loop.simps)
      apply (simp only: pg sum.case prod.case Let_def)
      apply simp
      done
    show "(\<exists>rest. all = acc @ rest) \<and>
           (\<forall>k. 0 < k \<and> int (length acc) < k \<and> k \<le> int (length all) \<longrightarrow>
              listPublicRepos_loop c owner k opt acc = Some (Inr (take (nat k) all)))"
    proof (cases "NextPage resp = 0")
      case True
      with prem lim y pg have all: "all = acc @ repos"
        by (simp add: Let_def)
      show ?thesis
      proof (intro conjI allI impI)
        show "\<exists>rest. all = acc @ rest" using all by blast
      next
        fix k assume k: "0 < k \<and> int (length acc) < k \<and> k \<le> int (length all)"
        then show "listPublicRepos_loop c owner k opt acc = Some (Inr (take (nat k) all))"
          using unf [of k] all by simp
      qed
    next
      case False
      with prem lim y pg have rec: "f c owner limit ?opt' (acc @ repos) = Some (Inr all)"
        by (simp add: Let_def)
      from IH [OF rec] lim obtain rest where
        rest: "all = (acc @ repos) @ rest" and
        ih: "\<And>k. 0 < k \<Longrightarrow> int (length (acc @ repos)) < k \<Longrightarrow> k \<le> int (length all) \<Longrightarrow>
              listPublicRepos_loop c owner k ?opt' (acc @ repos) = Some (Inr (take (nat k) all))"
        by blast
      show ?thesis
      proof (intro conjI allI impI)
        show "\<exists>rest. all = acc @ rest" using rest by simp
      next
        fix k assume k: "0 < k \<and> int (length acc) < k \<and> k \<le> int (length all)"
        show "listPublicRepos_loop c owner k opt acc = Some (Inr (take (nat k) all))"
        proof (cases "k \<le> int (length (acc @ repos))")
          case True
          then have "nat k \<le> length (acc @ repos)" by linarith
          then have "take (nat k) all = take (nat k) (acc @ repos)"
            unfolding rest by (simp only: take_append) simp
          with True k show ?thesis
            using unf [of k] by simp
        next
          case nk: False
          then have "listPublicRepos_loop c owner k ?opt' (acc @ repos) = Some (Inr (take (nat k) all))"
            using ih k by simp
          with nk False k show ?thesis
            using unf [of k] by simp
        qed
      qed
    qed
  qed
qed

subsection \<open>Commit records and their order\<close>

lemma length_reverse_loop: "length (reverse_loop i j xs) = length xs"
proof (induction i j xs rule: reverse_loop.induct)
  case (1 i j xs)
  show ?case
  proof (cases "int i < j")
    case True
    with 1 show ?thesis by (subst reverse_loop.simps) simp
  next
    case False
    then show ?thesis by (subst reverse_loop.simps) simp
  qed
qed

lemma reverse_loop_nth:
  "j < int (length xs) \<Longrightarrow> k < length xs \<Longrightarrow>
     reverse_loop i j xs ! k =
       (if i \<le> k \<and> int k \<le> j then xs ! nat (int i + j - int k) else xs ! k)"
proof (induction i j xs arbitrary: k rule: reverse_loop.induct)
  case (1 i j xs)
  show ?case
  proof (cases "int i < j")
    case True
    let ?xs' = "xs[i := xs ! nat j, nat j := xs ! i]"
    have unf: "reverse_loop i j xs = reverse_loop (i + 1) (j - 1) ?xs'"
      using True by (subst reverse_loop.simps) simp
    have ih: "reverse_loop (i + 1) (j - 1) ?xs' ! k =
        (if i + 1 \<le> k \<and> int k \<le> j - 1 then ?xs' ! nat (int (i + 1) + (j - 1) - int k) else ?xs' ! k)"
      using "1.IH" [OF True, of k] "1.prems" by simp
    have i: "i < length xs" and j: "nat j < length xs" and ij: "i \<noteq> nat j"
      and ile: "i \<le> nat j" and jnat: "int (nat j) = j"
      using True "1.prems" by linarith+
    show ?thesis
    proof (cases "i + 1 \<le> k \<and> int k \<le> j - 1")
      case mid: True
      then have "nat (int (i + 1) + (j - 1) - int k) \<noteq> i" "nat (int (i + 1) + (j - 1) - int k) \<noteq> nat j"
        by linarith+
      then have "?xs' ! nat (int (i + 1) + (j - 1) - int k) = xs ! nat (int i + j - int k)"
        by simp
      with mid show ?thesis unfolding unf ih by simp
    next
      case out: False
      show ?thesis
      proof (cases "k = i")
        case True
        then show ?thesis unfolding unf ih using out i j ij ile jnat \<open>int i < j\<close> by simp
      next
        case ki: False
        show ?thesis
        proof (cases "k = nat j")
          case True
          then show ?thesis unfolding unf ih using out i j ij ile jnat by simp
        next
          case False
          with ki out have "\<not> (i \<le> k \<and> int k \<le> j)" by linarith
          with ki False out show ?thesis unfolding unf ih by auto
        qed
      qed
    qed
  next
    case False
    then have unf: "reverse_loop i j xs = xs"
      by (subst reverse_loop.simps) simp
    have "i \<le> k \<and> int k \<le> j \<Longrightarrow> nat (int i + j - int k) = k"
      using False by linarith
    then show ?thesis unfolding unf by auto
  qed
qed

lemma reverseCommits_rev: "reverseCommits xs = rev xs"
proof (rule nth_equalityI)
  show "length (reverseCommits xs) = length (rev xs)"
    by (simp add: reverseCommits_def length_reverse_loop)
next
  fix k assume "k < length (reverseCommits xs)"
  then have k: "k < length xs"
    by (simp add: reverseCommits_def length_reverse_loop)
  then have "nat (int 0 + (int (length xs) - 1) - int k) = length xs - Suc k"
    by linarith
  then show "reverseCommits xs ! k = rev xs ! k"
    using k reverse_loop_nth [of "int (length xs) - 1" xs k 0]
    by (simp add: reverseCommits_def rev_nth)
qed

lemma commitInfos_loop_append:
  "commitInfos_loop acc commits = Inr infos \<Longrightarrow>
     \<exists>new. infos = acc @ new \<and> map toCommitInfo commits = map Inr new"
proof (induction commits arbitrary: acc)
  case Nil
  then show ?case by simp
next
  case (Cons c commits)
  from Cons.prems obtain info where
    c: "toCommitInfo c = Inr info" and rest: "commitInfos_loop (acc @ [info]) commits = Inr infos"
    by (auto split: sum.splits)
  from Cons.IH [OF rest] obtain new where
    "infos = (acc @ [info]) @ new" "map toCommitInfo commits = map Inr new"
    by blast
  with c show ?case by simp
qed

lemma commitInfos_loop_total:
  "\<forall>c \<in> set commits. rc_Commit c \<noteq> None \<Longrightarrow> \<exists>infos. commitInfos_loop acc commits = Inr infos"
proof (induction commits arbitrary: acc)
  case Nil
  then show ?case by simp
next
  case (Cons c commits)
  then obtain info where "toCommitInfo c = Inr info"
    by (auto simp: toCommitInfo_def Let_def split: option.splits)
  with Cons show ?case by simp
qed

lemma commitInfos_loop_panic:
  "\<exists>c \<in> set commits. rc_Commit c = None \<Longrightarrow> commitInfos_loop acc commits = Inl NilPointerDereference"
proof (induction commits arbitrary: acc)
  case Nil
  then show ?case by simp
next
  case (Cons c commits)
  show ?case
  proof (cases "rc_Commit c")
    case None
    then show ?thesis by (simp add: toCommitInfo_def)
  next
    case (Some m)
    with Cons show ?thesis by (simp add: toCommitInfo_def)
  qed
qed

lemma sim_client_ListByOrg:
  "ListByOrg (sim_client repos commits) owner = (\<lambda>opt. Inr (paged repos (ListOptions opt)))"
  by (simp add: sim_client_def)

lemma sim_client_CompareCommits:
  "CompareCommits (sim_client repos commits) owner repo base head = (\<lambda>opt. Inr (paged commits opt))"
  by (simp add: sim_client_def)

subsection \<open>Claims on pagination\<close>

text \<open>
  Claim C1. Against a simulated source that serves its items in pages of the requested
  size, whatever the number of items, \<open>listPublicRepos\<close> without a limit and
  \<open>compareAllCommits\<close> both return, and what they return is the concatenation of
  the pages in page order, which is the list of the items itself: nothing is missing,
  nothing is repeated. This includes a last page that is exactly full, where the
  source reports no next page. The page size of main.go is 100; the two loops do the
  same at any page size \<open>P\<close>.
\<close>

theorem pagination_complete:
  "listPublicRepos (sim_client repos commits) owner 0 = Some (Inr (concat (pages_served 100 repos)))
   \<and> compareAllCommits (sim_client repos commits) owner repo base head
        = Some (Inr (concat (pages_served 100 commits)))
   \<and> concat (pages_served 100 repos) = repos
   \<and> concat (pages_served 100 commits) = commits
   \<and> listPublicRepos_loop (sim_client repos commits) owner 0
        \<lparr>Type = ''public'', ListOptions = \<lparr>Page = 0, PerPage = P\<rparr>\<rparr> [] = Some (Inr repos)
   \<and> compareAllCommits_loop (sim_client repos commits) owner repo base head P 1 [] = Some (Inr commits)"
proof -
  have "listPublicRepos (sim_client repos commits) owner 0 = Some (Inr repos)"
    using listPublicRepos_paged [OF sim_client_ListByOrg, of repos commits owner 0] by simp
  moreover have "compareAllCommits (sim_client repos commits) owner repo base head = Some (Inr commits)"
    by (rule compareAllCommits_paged [OF sim_client_CompareCommits])
  moreover have "listPublicRepos_loop (sim_client repos commits) owner 0
        \<lparr>Type = ''public'', ListOptions = \<lparr>Page = 0, PerPage = P\<rparr>\<rparr> [] = Some (Inr repos)"
    using listPublicRepos_loop_paged [OF sim_client_ListByOrg, where k = 0 and limit = 0 and acc = "[]"
        and opt = "\<lparr>Type = ''public'', ListOptions = \<lparr>Page = 0, PerPage = P\<rparr>\<rparr>"
        and items = repos and commits1 = commits and owner = owner]
    by (simp add: page_number_def)
  moreover have "compareAllCommits_loop (sim_client repos commits) owner repo base head P 1 []
        = Some (Inr commits)"
    unfolding One_nat_def
    by (rule compareAllCommits_loop_paged [OF sim_client_CompareCommits refl refl, where k = 0]) simp
  ultimately show ?thesis
    by (simp add: concat_pages_served)
qed

text \<open>
  Claim C2. With limit 0 \<open>listPublicRepos\<close> returns all the repositories of the
  simulated source; with a limit \<open>k\<close>, positive and less than their number, it
  returns exactly \<open>k\<close> of them, a prefix of the unlimited result. For any client
  whatever, if the unlimited enumeration returns \<open>all\<close>, the enumeration limited to
  such a \<open>k\<close> returns the first \<open>k\<close> of \<open>all\<close>.
\<close>

theorem limit_truncation:
  "listPublicRepos (sim_client repos commits) owner 0 = Some (Inr repos)
   \<and> (\<forall>k. 0 < k \<and> k < int (length repos) \<longrightarrow>
         (\<exists>res. listPublicRepos (sim_client repos commits) owner k = Some (Inr res)
            \<and> int (length res) = k \<and> prefix res repos))
   \<and> (\<forall>c all k. listPublicRepos c owner 0 = Some (Inr all) \<and> 0 < k \<and> k < int (length all) \<longrightarrow>
         listPublicRepos c owner k = Some (Inr (take (nat k) all)))"
proof (intro conjI allI impI)
  show "listPublicRepos (sim_client repos commits) owner 0 = Some (Inr repos)"
    using listPublicRepos_paged [OF sim_client_ListByOrg, of repos commits owner 0] by simp
next
  fix k assume k: "0 < k \<and> k < int (length repos)"
  then have "listPublicRepos (sim_client repos commits) owner k = Some (Inr (take (nat k) repos))"
    using listPublicRepos_paged [OF sim_client_ListByOrg, of repos commits owner k] by simp
  moreover have "int (length (take (nat k) repos)) = k"
  proof -
    have "nat k \<le> length repos" using k by linarith
    then show ?thesis using k by simp
  qed
  moreover have "prefix (take (nat k) repos) repos"
    by (rule take_is_prefix)
  ultimately show "\<exists>res. listPublicRepos (sim_client repos commits) owner k = Some (Inr res)
            \<and> int (length res) = k \<and> prefix res repos"
    by blast
next
  fix c all k
  assume h: "listPublicRepos c owner 0 = Some (Inr all) \<and> 0 < k \<and> k < int (length all)"
  then show "listPublicRepos c owner k = Some (Inr (take (nat k) all))"
    using listPublicRepos_loop_limit [of c owner 0 _ "[]" "Inr all"]
    unfolding listPublicRepos_def by simp
qed

theorem limit_truncation_witness:
  "(0::int) < 2 \<and> (2::int) < int (length (map ex_repo [''a'', ''b'', ''c'']))
   \<and> listPublicRepos (sim_client (map ex_repo [''a'', ''b'', ''c'']) []) ''org'' 0
        = Some (Inr (map ex_repo [''a'', ''b'', ''c'']))
   \<and> listPublicRepos (sim_client (map ex_repo [''a'', ''b'', ''c'']) []) ''org'' 2
        = Some (Inr (map ex_repo [''a'', ''b'']))"
proof -
  let ?R = "map ex_repo [''a'', ''b'', ''c'']"
  note t = limit_truncation [of ?R "[]" "''org''"]
  have a: "listPublicRepos (sim_client ?R []) ''org'' 0 = Some (Inr ?R)"
    using t by (rule conjunct1)
  have b: "listPublicRepos (sim_client ?R []) ''org'' 2 = Some (Inr (take (nat 2) ?R))"
    using t [THEN conjunct2, THEN conjunct2, rule_format, of "sim_client ?R []" ?R 2] a by simp
  have "take (nat 2) ?R = map ex_repo [''a'', ''b'']"
    by (simp add: numeral_2_eq_2)
  with a b show ?thesis by simp
qed

subsection \<open>Claims on the commit records\<close>

text \<open>
  Claim C3. The commit sequence of a snapshot is the sequence of the records of the raw
  commits, reversed: its timestamps are the authored timestamps of the raw commits in
  reverse order, its index 0 is the record of the commit delivered last, and it is
  non-increasing by timestamp whenever the raw commits were delivered in non-decreasing
  order.
\<close>

theorem newest_first:
  assumes "normalize owner repoName defaultBranch tagName releaseTime commits url = Inr repoData"
  shows "map toCommitInfo commits = map Inr (rev (UnreleasedCommits repoData))
     \<and> map Timestamp (UnreleasedCommits repoData) = rev (map authored commits)
     \<and> (commits \<noteq> [] \<longrightarrow> toCommitInfo (last commits) = Inr (UnreleasedCommits repoData ! 0))
     \<and> (sorted (map authored commits) \<longrightarrow>
          sorted_wrt (\<lambda>t t'. t \<ge> t') (map Timestamp (UnreleasedCommits repoData)))"
proof -
  from assms obtain infos where
    loop: "commitInfos_loop [] commits = Inr infos" and d: "UnreleasedCommits repoData = rev infos"
    by (auto simp: normalize_def reverseCommits_rev split: sum.splits)
  from commitInfos_loop_append [OF loop] have m: "map toCommitInfo commits = map Inr infos"
    by simp
  have t: "map Timestamp infos = map authored commits"
  proof (rule nth_equalityI)
    show "length (map Timestamp infos) = length (map authored commits)"
      using arg_cong [OF m, of length] by simp
  next
    fix k assume "k < length (map Timestamp infos)"
    then have k: "k < length infos" "k < length commits"
      using arg_cong [OF m, of length] by simp_all
    then have "Inr (infos ! k) = toCommitInfo (commits ! k)"
      using arg_cong [OF m, of "\<lambda>xs. xs ! k"] by simp
    then have "Timestamp (infos ! k) = authored (commits ! k)"
      by (cases "rc_Commit (commits ! k)") (auto simp: toCommitInfo_def authored_def Let_def)
    with k show "map Timestamp infos ! k = map authored commits ! k" by simp
  qed
  have first: "commits \<noteq> [] \<longrightarrow> toCommitInfo (last commits) = Inr (UnreleasedCommits repoData ! 0)"
  proof
    assume ne: "commits \<noteq> []"
    then have ne': "infos \<noteq> []" using arg_cong [OF m, of length] by auto
    have "last (map toCommitInfo commits) = last (map Inr infos)" using m by simp
    then have "toCommitInfo (last commits) = Inr (last infos)"
      using ne ne' by (simp add: last_map)
    moreover have "rev infos ! 0 = last infos"
      using ne' by (simp add: rev_nth last_conv_nth)
    ultimately show "toCommitInfo (last commits) = Inr (UnreleasedCommits repoData ! 0)"
      using d by simp
  qed
  have ord: "sorted (map authored commits) \<longrightarrow>
          sorted_wrt (\<lambda>t t'. t \<ge> t') (map Timestamp (UnreleasedCommits repoData))"
  proof
    assume "sorted (map authored commits)"
    then have "sorted (map Timestamp infos)" using t by simp
    then have "sorted_wrt (\<lambda>t t'. t \<ge> t') (rev (map Timestamp infos))"
      by (simp add: sorted_wrt_rev)
    then show "sorted_wrt (\<lambda>t t'. t \<ge> t') (map Timestamp (UnreleasedCommits repoData))"
      using d by (simp add: rev_map)
  qed
  have ts: "map Timestamp (UnreleasedCommits repoData) = rev (map authored commits)"
    using arg_cong [OF t, of rev] d by (simp add: rev_map)
  have recs: "map toCommitInfo commits = map Inr (rev (UnreleasedCommits repoData))"
    using m d by simp
  show ?thesis using recs ts first ord by blast
qed

theorem newest_first_witness:
  "normalize ''org'' ''a'' ''main'' ''v1'' 100
     [raw_commit None (Some ''Bob'') 1, raw_commit None None 2,
      raw_commit (Some ''alice'') (Some ''Alice Smith'') 3] []
     = Inr \<lparr>Owner = ''org'', Name = ''a'', DefaultBranch = ''main'', LatestReleaseTag = ''v1'',
            LatestReleaseTime = 100,
            UnreleasedCommits =
              [\<lparr>SHA = [], Author = ''alice'', Message = [], Timestamp = 3, URL = []\<rparr>,
               \<lparr>SHA = [], Author = ''unknown'', Message = [], Timestamp = 2, URL = []\<rparr>,
               \<lparr>SHA = [], Author = ''Bob'', Message = [], Timestamp = 1, URL = []\<rparr>],
            RepositoryURL = []\<rparr>
   \<and> rev (map authored [raw_commit None (Some ''Bob'') 1, raw_commit None None 2,
                         raw_commit (Some ''alice'') (Some ''Alice Smith'') 3]) = [3, 2, 1]"
proof -
  let ?commits = "[raw_commit None (Some ''Bob'') 1, raw_commit None None 2,
                   raw_commit (Some ''alice'') (Some ''Alice Smith'') 3]"
  let ?d = "\<lparr>Owner = ''org'', Name = ''a'', DefaultBranch = ''main'', LatestReleaseTag = ''v1'',
            LatestReleaseTime = 100,
            UnreleasedCommits =
              [\<lparr>SHA = [], Author = ''alice'', Message = [], Timestamp = 3, URL = []\<rparr>,
               \<lparr>SHA = [], Author = ''unknown'', Message = [], Timestamp = 2, URL = []\<rparr>,
               \<lparr>SHA = [], Author = ''Bob'', Message = [], Timestamp = 1, URL = []\<rparr>],
            RepositoryURL = []\<rparr>"
  have n: "normalize ''org'' ''a'' ''main'' ''v1'' 100 ?commits [] = Inr ?d"
    by (simp add: normalize_def toCommitInfo_def raw_commit_def resolveAuthor_def GetLogin_def
          GetName_def GetSHA_def GetMessage_def GetDate_def GetHTMLURL_def reverseCommits_rev)
  from newest_first [OF n] have "map Timestamp (UnreleasedCommits ?d) = rev (map authored ?commits)"
    by blast
  with n show ?thesis by simp
qed

text \<open>
  Claim C4. The resolved author of a raw commit is the first that exists of: the
  non-empty login of the platform-linked author, the non-empty display name of the
  author in the commit metadata, the literal "unknown". A commit with login "alice" and
  name "Alice Smith" resolves to "alice", one with only the name "Bob" to "Bob", one
  with neither to "unknown".
\<close>

theorem author_precedence:
  "resolveAuthor c = spec_author c
   \<and> resolveAuthor (raw_commit (Some ''alice'') (Some ''Alice Smith'') t) = ''alice''
   \<and> resolveAuthor (raw_commit None (Some ''Bob'') t) = ''Bob''
   \<and> resolveAuthor (raw_commit None None t) = ''unknown''"
proof -
  have "resolveAuthor c = spec_author c"
    by (simp add: resolveAuthor_def spec_author_def linked_login_def metadata_name_def
          GetLogin_def GetName_def split: option.splits)
  moreover have "resolveAuthor (raw_commit (Some ''alice'') (Some ''Alice Smith'') t) = ''alice''"
    by (simp add: resolveAuthor_def raw_commit_def GetLogin_def)
  moreover have "resolveAuthor (raw_commit None (Some ''Bob'') t) = ''Bob''"
    by (simp add: resolveAuthor_def raw_commit_def GetLogin_def GetName_def)
  moreover have "resolveAuthor (raw_commit None None t) = ''unknown''"
    by (simp add: resolveAuthor_def raw_commit_def GetLogin_def GetName_def)
  ultimately show ?thesis by blast
qed

subsection \<open>Claims on the release resolver\<close>

text \<open>
  Claim C6. \<open>checkLatestRelease\<close> answers "none" when the remote call fails (which
  is how the remote reports that there is no release), when the call succeeds with a
  \<open>nil\<close> release, and when the tag name is absent or empty; it answers "some",
  with the release, exactly when the call succeeds with a non-empty tag name. It has
  no error result.
\<close>

theorem release_none_or_some:
  "(\<forall>err. GetLatestRelease c owner repo = Inl err \<longrightarrow> checkLatestRelease c owner repo = (False, None))
   \<and> (GetLatestRelease c owner repo = Inr None \<longrightarrow> checkLatestRelease c owner repo = (False, None))
   \<and> (\<forall>rel. GetLatestRelease c owner repo = Inr (Some rel) \<and> (TagName rel = None \<or> TagName rel = Some [])
         \<longrightarrow> checkLatestRelease c owner repo = (False, None))
   \<and> (\<forall>rel tag. GetLatestRelease c owner repo = Inr (Some rel) \<and> TagName rel = Some tag \<and> tag \<noteq> []
         \<longrightarrow> checkLatestRelease c owner repo = (True, Some rel))
   \<and> (fst (checkLatestRelease c owner repo) \<longleftrightarrow>
        (\<exists>rel tag. GetLatestRelease c owner repo = Inr (Some rel) \<and> TagName rel = Some tag \<and> tag \<noteq> []))"
  by (cases "GetLatestRelease c owner repo")
     (auto simp: checkLatestRelease_def GetTagName_def split: option.splits)

theorem release_none_or_some_witness:
  "GetLatestRelease ex_client ''org'' ''b'' = Inl (Error ''404 Not Found'')
   \<and> checkLatestRelease ex_client ''org'' ''b'' = (False, None)
   \<and> GetLatestRelease ex_client ''org'' ''g'' = Inr None
   \<and> checkLatestRelease ex_client ''org'' ''g'' = (False, None)
   \<and> GetLatestRelease ex_client ''org'' ''h'' = Inr (Some \<lparr>TagName = Some [], PublishedAt = Some 100\<rparr>)
   \<and> checkLatestRelease ex_client ''org'' ''h'' = (False, None)
   \<and> GetLatestRelease ex_client ''org'' ''a'' = Inr (Some ex_release)
   \<and> TagName ex_release = Some ''v1''
   \<and> checkLatestRelease ex_client ''org'' ''a'' = (True, Some ex_release)"
proof -
  have b: "GetLatestRelease ex_client ''org'' ''b'' = Inl (Error ''404 Not Found'')"
    and g: "GetLatestRelease ex_client ''org'' ''g'' = Inr None"
    and h: "GetLatestRelease ex_client ''org'' ''h'' = Inr (Some \<lparr>TagName = Some [], PublishedAt = Some 100\<rparr>)"
    and a: "GetLatestRelease ex_client ''org'' ''a'' = Inr (Some ex_release)"
    and t: "TagName ex_release = Some ''v1''"
    by (simp_all add: ex_client_def ex_release_def)
  from b release_none_or_some [of ex_client "''org''" "''b''"]
  have "checkLatestRelease ex_client ''org'' ''b'' = (False, None)" by blast
  moreover from g release_none_or_some [of ex_client "''org''" "''g''"]
  have "checkLatestRelease ex_client ''org'' ''g'' = (False, None)" by blast
  moreover from h release_none_or_some [of ex_client "''org''" "''h''"]
  have "checkLatestRelease ex_client ''org'' ''h'' = (False, None)" by simp
  moreover from a t release_none_or_some [of ex_client "''org''" "''a''"]
  have "checkLatestRelease ex_client ''org'' ''a'' = (True, Some ex_release)" by simp
  ultimately show ?thesis using a b g h t by simp
qed

subsection \<open>Totality of the commit mapping\<close>

text \<open>
  Claim C10, amended. The mapping from a raw commit to a commit record panics exactly
  when the embedded commit metadata is \<open>nil\<close>, whether or not the commit has a
  platform-linked author. A \<open>nil\<close> author inside non-nil metadata is accepted by
  the accessor \<open>GetDate\<close> and gives the zero timestamp. Over a list of raw commits
  that all have their metadata, every commit yields exactly one record; with one
  commit lacking it, the loop panics.
\<close>

theorem commit_mapping_total_iff_metadata:
  "(rc_Commit c = None \<longrightarrow> toCommitInfo c = Inl NilPointerDereference)
   \<and> (\<forall>m. rc_Commit c = Some m \<longrightarrow>
         toCommitInfo c = Inr \<lparr>SHA = GetSHA c, Author = resolveAuthor c, Message = GetMessage (Some m),
                             Timestamp = GetDate (commit_Author m), URL = GetHTMLURL c\<rparr>)
   \<and> ((\<forall>c \<in> set commits. rc_Commit c \<noteq> None) \<longrightarrow>
        (\<exists>infos. commitInfos_loop [] commits = Inr infos \<and> length infos = length commits))
   \<and> ((\<exists>c \<in> set commits. rc_Commit c = None) \<longrightarrow>
        commitInfos_loop [] commits = Inl NilPointerDereference)"
proof (intro conjI impI allI)
  show "rc_Commit c = None \<Longrightarrow> toCommitInfo c = Inl NilPointerDereference"
    by (simp add: toCommitInfo_def)
next
  fix m assume "rc_Commit c = Some m"
  then show "toCommitInfo c = Inr \<lparr>SHA = GetSHA c, Author = resolveAuthor c, Message = GetMessage (Some m),
                             Timestamp = GetDate (commit_Author m), URL = GetHTMLURL c\<rparr>"
    by (simp add: toCommitInfo_def)
next
  assume "\<forall>c \<in> set commits. rc_Commit c \<noteq> None"
  then obtain infos where l: "commitInfos_loop [] commits = Inr infos"
    using commitInfos_loop_total by blast
  from commitInfos_loop_append [OF l] have "map toCommitInfo commits = map Inr infos"
    by simp
  then have "length infos = length commits"
    by (metis length_map)
  with l show "\<exists>infos. commitInfos_loop [] commits = Inr infos \<and> length infos = length commits"
    by blast
next
  assume "\<exists>c \<in> set commits. rc_Commit c = None"
  then show "commitInfos_loop [] commits = Inl NilPointerDereference"
    by (rule commitInfos_loop_panic)
qed

theorem commit_mapping_total_iff_metadata_witness:
  "rc_Commit commit_nil_metadata = None
   \<and> toCommitInfo commit_nil_metadata = Inl NilPointerDereference
   \<and> commitInfos_loop [] [raw_commit None None 1, commit_nil_metadata] = Inl NilPointerDereference
   \<and> (\<exists>infos. commitInfos_loop [] [raw_commit None None 1, commit_nil_metadata_author] = Inr infos
         \<and> length infos = 2)
   \<and> toCommitInfo commit_nil_metadata_author
       = Inr \<lparr>SHA = GetSHA commit_nil_metadata_author, Author = resolveAuthor commit_nil_metadata_author,
              Message = ''fix'', Timestamp = zero_time, URL = GetHTMLURL commit_nil_metadata_author\<rparr>"
proof -
  have n: "rc_Commit commit_nil_metadata = None"
    by (simp add: commit_nil_metadata_def)
  have a: "rc_Commit commit_nil_metadata_author = Some \<lparr>commit_Author = None, commit_Message = Some ''fix''\<rparr>"
    by (simp add: commit_nil_metadata_author_def)
  have ex: "\<exists>c \<in> set [raw_commit None None 1, commit_nil_metadata]. rc_Commit c = None"
    using n by simp
  have al: "\<forall>c \<in> set [raw_commit None None 1, commit_nil_metadata_author]. rc_Commit c \<noteq> None"
    using a by (simp add: raw_commit_def)
  note t1 = commit_mapping_total_iff_metadata [of commit_nil_metadata "[raw_commit None None 1, commit_nil_metadata]"]
  note t2 = commit_mapping_total_iff_metadata
    [of commit_nil_metadata_author "[raw_commit None None 1, commit_nil_metadata_author]"]
  have "toCommitInfo commit_nil_metadata = Inl NilPointerDereference"
    using t1 n by blast
  moreover have "commitInfos_loop [] [raw_commit None None 1, commit_nil_metadata] = Inl NilPointerDereference"
    using t1 ex by blast
  moreover have "\<exists>infos. commitInfos_loop [] [raw_commit None None 1, commit_nil_metadata_author] = Inr infos
         \<and> length infos = 2"
  proof -
    from t2 al obtain infos where
      "commitInfos_loop [] [raw_commit None None 1, commit_nil_metadata_author] = Inr infos"
      "length infos = length [raw_commit None None 1, commit_nil_metadata_author]"
      by blast
    then show ?thesis by auto
  qed
  moreover have "toCommitInfo commit_nil_metadata_author
       = Inr \<lparr>SHA = GetSHA commit_nil_metadata_author, Author = resolveAuthor commit_nil_metadata_author,
              Message = ''fix'', Timestamp = zero_time, URL = GetHTMLURL commit_nil_metadata_author\<rparr>"
    using t2 a by (simp add: GetMessage_def GetDate_def)
  ultimately show ?thesis using n by blast
qed

text \<open>As first stated, the claim has the mapping panic on a commit whose metadata has no
  author. It does not: the record is built, with the zero timestamp.\<close>

theorem nil_metadata_author_counterexample:
  "rc_Author commit_nil_metadata_author \<noteq> None
   \<and> rc_Commit commit_nil_metadata_author = Some \<lparr>commit_Author = None, commit_Message = Some ''fix''\<rparr>
   \<and> toCommitInfo commit_nil_metadata_author
       = Inr \<lparr>SHA = ''abc'', Author = ''alice'', Message = ''fix'', Timestamp = zero_time, URL = []\<rparr>"
  by (simp add: commit_nil_metadata_author_def toCommitInfo_def resolveAuthor_def GetLogin_def
        GetSHA_def GetMessage_def GetDate_def GetHTMLURL_def)

subsection \<open>The iterations of the crawl\<close>

lemma visited_append: "visited (xs @ ys) = visited xs @ visited ys"
  by (induction xs rule: visited.induct) simp_all

lemma emit_simps:
  "files (emit e st) = files st"
  "processedCount (emit e st) = processedCount st"
  "out (emit e st) = out st @ [e]"
  by (simp_all add: emit_def)

lemma split_sep_no_sep:
  "CHR ''/'' \<notin> set xs \<Longrightarrow> split_sep cur (xs @ ys) = split_sep (cur @ xs) ys"
  by (induction xs arbitrary: cur) auto

text \<open>For a name without a separator, cleaning changes nothing.\<close>

lemma snapshot_path_plain:
  assumes "CHR ''/'' \<notin> set name"
  shows "snapshot_path name = ''data/'' @ name @ ''.json''"
proof -
  have "CHR ''/'' \<notin> set (name @ ''.json'')" using assms by simp
  then have "split_sep [] ((name @ ''.json'') @ []) = [name @ ''.json'']"
    by (subst split_sep_no_sep) simp_all
  then have s: "split_sep [] (''data/'' @ name @ ''.json'') = [''data'', name @ ''.json'']"
    by simp
  have ne: "name @ ''.json'' \<noteq> []" "name @ ''.json'' \<noteq> ''.''" "name @ ''.json'' \<noteq> ''..''"
    using arg_cong [of "name @ ''.json''" _ length] by auto
  have "''data'' @ ''/'' @ name @ ''.json'' = ''data/'' @ name @ ''.json''" by simp
  then show ?thesis
    using s ne by (simp add: snapshot_path_def Join_def Clean_def)
qed

lemma timestamp_path_plain: "timestamp_path = ''data/timestamp.json''"
  by (simp add: timestamp_path_def Join_def Clean_def)

lemma token_trimmed: "TrimSpace ''token'' = ''token''"
  by code_simp

lemma writeJSON_frame:
  "writeJSON w fs filename data = (werr, fs') \<Longrightarrow> f \<noteq> filename \<Longrightarrow> fs' f = fs f"
  by (auto simp: writeJSON_def split: option.splits)

lemma processRepo_skip:
  assumes "\<not> fst (checkLatestRelease (github w) owner (repo_GetName repo))"
  shows "processRepo w owner n st i repo =
           Some (Inr (emit (SkippingNoReleases (repo_GetName repo))
                        (emit (Processing (i + 1) n (repo_GetName repo)) st)))"
proof -
  obtain b rel where c: "checkLatestRelease (github w) owner (repo_GetName repo) = (b, rel)"
    by (cases "checkLatestRelease (github w) owner (repo_GetName repo)")
  with assms have "\<not> b" by simp
  with c show ?thesis by (simp add: processRepo_def Let_def)
qed

lemma processRepo_detail_failed:
  assumes "checkLatestRelease (github w) owner (repo_GetName repo) = (True, rel)"
    and "Get (github w) owner (repo_GetName repo) = Inl err"
  shows "processRepo w owner n st i repo =
           Some (Inr (emit (ErrorRepoDetails err) (emit (Processing (i + 1) n (repo_GetName repo)) st)))"
  using assms by (simp add: processRepo_def Let_def)

lemma processRepo_compare_failed:
  assumes "checkLatestRelease (github w) owner (repo_GetName repo) = (True, rel)"
    and "Get (github w) owner (repo_GetName repo) = Inr detail"
    and "compareAllCommits (github w) owner (repo_GetName repo) (GetTagName rel)
           (repo_GetDefaultBranch detail) = Some (Inl err)"
  shows "processRepo w owner n st i repo =
           Some (Inr (emit (ErrorComparingCommits err)
                        (emit (LatestRelease (GetTagName rel) (GetPublishedAt rel))
                           (emit (Processing (i + 1) n (repo_GetName repo)) st))))"
  using assms by (simp add: processRepo_def Let_def)

lemma processRepo_write:
  assumes "checkLatestRelease (github w) owner (repo_GetName repo) = (True, rel)"
    and "Get (github w) owner (repo_GetName repo) = Inr detail"
    and "compareAllCommits (github w) owner (repo_GetName repo) (GetTagName rel)
           (repo_GetDefaultBranch detail) = Some (Inr commits)"
    and "normalize owner (repo_GetName repo) (repo_GetDefaultBranch detail) (GetTagName rel)
           (GetPublishedAt rel) commits (repo_GetHTMLURL detail) = Inr repoData"
    and "writeJSON w (files st) (snapshot_path (repo_GetName repo)) (RepoJSON repoData) = (werr, fs)"
  shows "processRepo w owner n st i repo =
           (let st2 = emit (LatestRelease (GetTagName rel) (GetPublishedAt rel))
                        (emit (Processing (i + 1) n (repo_GetName repo)) st)
            in case werr of
                 Some err \<Rightarrow> Some (Inr (emit (ErrorWritingJSON err) (st2\<lparr>files := fs\<rparr>)))
               | None \<Rightarrow>
                   Some (Inr ((emit (Saved (length (UnreleasedCommits repoData))
                                       (snapshot_path (repo_GetName repo))) (st2\<lparr>files := fs\<rparr>))
                                \<lparr>processedCount := processedCount st + 1\<rparr>)))"
  using assms by (simp add: processRepo_def Let_def emit_def split: option.splits)

lemma processRepo_panic:
  assumes "checkLatestRelease (github w) owner (repo_GetName repo) = (True, rel)"
    and "Get (github w) owner (repo_GetName repo) = Inr detail"
    and "compareAllCommits (github w) owner (repo_GetName repo) (GetTagName rel)
           (repo_GetDefaultBranch detail) = Some (Inr commits)"
    and "normalize owner (repo_GetName repo) (repo_GetDefaultBranch detail) (GetTagName rel)
           (GetPublishedAt rel) commits (repo_GetHTMLURL detail) = Inl a"
  shows "processRepo w owner n st i repo = Some (Inl a)"
  using assms by (simp add: processRepo_def Let_def)

lemma normalize_total:
  assumes "list_all (\<lambda>c. rc_Commit c \<noteq> None) commits"
  shows "\<exists>d. normalize owner name branch tag t commits url = Inr d
            \<and> length (UnreleasedCommits d) = length commits \<and> Name d = name \<and> LatestReleaseTag d = tag"
proof -
  from assms have "\<forall>c \<in> set commits. rc_Commit c \<noteq> None"
    by (simp add: list_all_iff)
  then obtain infos where l: "commitInfos_loop [] commits = Inr infos"
    using commitInfos_loop_total by blast
  from commitInfos_loop_append [OF l] have "map toCommitInfo commits = map Inr infos"
    by simp
  then have "length infos = length commits"
    by (metis length_map)
  with l show ?thesis
    by (simp add: normalize_def reverseCommits_rev)
qed

text \<open>What one iteration changes.\<close>

lemma processRepo_effect:
  assumes "processRepo w owner n st i repo = Some (Inr st')"
  shows "(\<forall>f. f \<noteq> snapshot_path (repo_GetName repo) \<longrightarrow> files st' f = files st f)
     \<and> visited (out st') = visited (out st) @ [repo_GetName repo]
     \<and> processedCount st' + saves (out st) = processedCount st + saves (out st')
     \<and> skips (out st') =
          skips (out st) + (if fst (checkLatestRelease (github w) owner (repo_GetName repo)) then 0 else 1)"
proof (cases "fst (checkLatestRelease (github w) owner (repo_GetName repo))")
  case False
  from assms False show ?thesis
    unfolding processRepo_skip [OF False]
    by (auto simp: emit_def visited_append saves_def skips_def)
next
  case True
  then obtain rel where rel: "checkLatestRelease (github w) owner (repo_GetName repo) = (True, rel)"
    by (cases "checkLatestRelease (github w) owner (repo_GetName repo)") simp
  show ?thesis
  proof (cases "Get (github w) owner (repo_GetName repo)")
    case (Inl err)
    from assms True show ?thesis
      unfolding processRepo_detail_failed [OF rel Inl]
      by (auto simp: emit_def visited_append saves_def skips_def)
  next
    case (Inr detail)
    show ?thesis
    proof (cases "compareAllCommits (github w) owner (repo_GetName repo) (GetTagName rel)
           (repo_GetDefaultBranch detail)")
      case None
      with assms rel Inr show ?thesis by (simp add: processRepo_def Let_def)
    next
      case (Some r)
      show ?thesis
      proof (cases r)
        case (Inl err)
        from assms True show ?thesis
          unfolding processRepo_compare_failed [OF rel Inr Some [unfolded Inl]]
          by (auto simp: emit_def visited_append saves_def skips_def)
      next
        case cs: (Inr commits)
        show ?thesis
        proof (cases "normalize owner (repo_GetName repo) (repo_GetDefaultBranch detail) (GetTagName rel)
           (GetPublishedAt rel) commits (repo_GetHTMLURL detail)")
          case (Inl a)
          from assms True show ?thesis
            unfolding processRepo_panic [OF rel Inr Some [unfolded cs] Inl] by simp
        next
          case d: (Inr repoData)
          obtain werr fs where
            wr: "writeJSON w (files st) (snapshot_path (repo_GetName repo)) (RepoJSON repoData) = (werr, fs)"
            by (cases "writeJSON w (files st) (snapshot_path (repo_GetName repo)) (RepoJSON repoData)")
          from assms True writeJSON_frame [OF wr] show ?thesis
            unfolding processRepo_write [OF rel Inr Some [unfolded cs] d wr]
            by (cases werr) (auto simp: emit_def visited_append saves_def skips_def Let_def)
        qed
      qed
    qed
  qed
qed

lemma processRepo_completes:
  assumes "repo_completes w owner repo"
  shows "\<exists>st'. processRepo w owner n st i repo = Some (Inr st')"
proof (cases "fst (checkLatestRelease (github w) owner (repo_GetName repo))")
  case False
  then show ?thesis using processRepo_skip by blast
next
  case True
  then obtain rel where rel: "checkLatestRelease (github w) owner (repo_GetName repo) = (True, rel)"
    by (cases "checkLatestRelease (github w) owner (repo_GetName repo)") simp
  show ?thesis
  proof (cases "Get (github w) owner (repo_GetName repo)")
    case (Inl err)
    then show ?thesis using processRepo_detail_failed [OF rel Inl] by blast
  next
    case (Inr detail)
    from assms rel Inr obtain r where
      cmp: "compareAllCommits (github w) owner (repo_GetName repo) (GetTagName rel)
           (repo_GetDefaultBranch detail) = Some r"
      by (auto simp: repo_completes_def Let_def split: option.splits)
    show ?thesis
    proof (cases r)
      case (Inl err)
      then show ?thesis using processRepo_compare_failed [OF rel Inr cmp [unfolded Inl]] by blast
    next
      case cs: (Inr commits)
      from assms rel Inr cmp cs have "list_all (\<lambda>c. rc_Commit c \<noteq> None) commits"
        by (simp add: repo_completes_def Let_def)
      from normalize_total [OF this] obtain d where
        d: "normalize owner (repo_GetName repo) (repo_GetDefaultBranch detail) (GetTagName rel)
           (GetPublishedAt rel) commits (repo_GetHTMLURL detail) = Inr d"
        by blast
      obtain werr fs where
        wr: "writeJSON w (files st) (snapshot_path (repo_GetName repo)) (RepoJSON d) = (werr, fs)"
        by (cases "writeJSON w (files st) (snapshot_path (repo_GetName repo)) (RepoJSON d)")
      show ?thesis
        unfolding processRepo_write [OF rel Inr cmp [unfolded cs] d wr]
        by (cases werr) (simp_all add: Let_def)
    qed
  qed
qed

lemma crawl_loop_effect:
  assumes "crawl_loop w owner n st i repos = Some (Inr st')"
  shows "(\<forall>f. f \<notin> snapshot_path ` repo_GetName ` set repos \<longrightarrow> files st' f = files st f)
     \<and> visited (out st') = visited (out st) @ map repo_GetName repos
     \<and> processedCount st' + saves (out st) = processedCount st + saves (out st')
     \<and> skips (out st') = skips (out st)
          + length (filter (\<lambda>repo. \<not> fst (checkLatestRelease (github w) owner (repo_GetName repo))) repos)"
  using assms
proof (induction repos arbitrary: st i)
  case Nil
  then show ?case by simp
next
  case (Cons repo repos)
  from Cons.prems obtain st1 where
    s: "processRepo w owner n st i repo = Some (Inr st1)"
    and l: "crawl_loop w owner n st1 (i + 1) repos = Some (Inr st')"
    by (auto split: option.splits sum.splits)
  note e1 = processRepo_effect [OF s]
  note e2 = Cons.IH [OF l]
  have "\<forall>f. f \<notin> snapshot_path ` repo_GetName ` set (repo # repos) \<longrightarrow> files st' f = files st f"
    using e1 e2 by auto
  moreover have "visited (out st') = visited (out st) @ map repo_GetName (repo # repos)"
    using e1 e2 by simp
  moreover have "processedCount st' + saves (out st) = processedCount st + saves (out st')"
    using e1 e2 by linarith
  moreover have "skips (out st') = skips (out st)
          + length (filter (\<lambda>repo. \<not> fst (checkLatestRelease (github w) owner (repo_GetName repo))) (repo # repos))"
    using e1 e2 by simp
  ultimately show ?case by blast
qed

lemma crawl_loop_completes:
  assumes "\<forall>repo \<in> set repos. repo_completes w owner repo"
  shows "\<exists>st'. crawl_loop w owner n st i repos = Some (Inr st')"
  using assms
proof (induction repos arbitrary: st i)
  case Nil
  then show ?case by simp
next
  case (Cons repo repos)
  from Cons.prems have "repo_completes w owner repo" by simp
  from processRepo_completes [OF this] obtain st1 where
    s: "processRepo w owner n st i repo = Some (Inr st1)" by blast
  from Cons.IH [of st1 "i + 1"] Cons.prems obtain st' where
    "crawl_loop w owner n st1 (i + 1) repos = Some (Inr st')"
    by auto
  with s show ?case by simp
qed

lemma finish_effect:
  "processedCount (finish w st) = processedCount st"
  "f \<noteq> timestamp_path \<Longrightarrow> files (finish w st) f = files st f"
  "fst (writeJSON w (files st) timestamp_path (TimestampJSON \<lparr>LastCrawled = now w\<rparr>)) = Some err \<Longrightarrow>
     out (finish w st) = out st @ [WarnTimestamp err, CrawlComplete (processedCount st)]"
  "fst (writeJSON w (files st) timestamp_path (TimestampJSON \<lparr>LastCrawled = now w\<rparr>)) = None \<Longrightarrow>
     out (finish w st) = out st @ [RecordedTimestamp (now w), CrawlComplete (processedCount st)]
     \<and> files (finish w st) timestamp_path = Some (Encoded (TimestampJSON \<lparr>LastCrawled = now w\<rparr>))"
  "create_err w timestamp_path \<noteq> None \<Longrightarrow> files (finish w st) = files st"
  by (auto simp: finish_def writeJSON_def emit_def Let_def split: option.splits prod.splits)

lemma finish_out:
  "\<exists>e. out (finish w st) = out st @ [e, CrawlComplete (processedCount st)]
       \<and> \<not> is_saved e \<and> \<not> is_skip e \<and> (\<forall>k. e \<noteq> CrawlComplete k)"
  by (auto simp: finish_def writeJSON_def emit_def Let_def split: option.splits prod.splits)

lemma runCrawl_returns:
  assumes "runCrawl w disk owner limit = Some (Inr st)"
  shows "\<exists>repos st'. listPublicRepos (github w) owner limit = Some (Inr repos)
     \<and> crawl_loop w owner (length repos)
          (emit (FoundRepositories (length repos))
             (emit (FetchingRepositories owner) \<lparr>files = disk, out = [], processedCount = 0\<rparr>)) 0 repos
          = Some (Inr st')
     \<and> st = finish w st'"
  using assms
  by (auto simp: runCrawl_def Let_def split: if_splits option.splits sum.splits)

subsection \<open>Facts of the example organization\<close>

lemma ex_names: "repo_GetName (ex_repo name) = name"
  by (simp add: repo_GetName_def ex_repo_def)

lemma ex_check:
  "checkLatestRelease ex_client owner ''a'' = (True, Some ex_release)"
  "checkLatestRelease ex_client owner ''b'' = (False, None)"
  "checkLatestRelease ex_client owner ''c'' = (True, Some ex_release)"
  "checkLatestRelease ex_client owner ''d'' = (True, Some ex_release)"
  "checkLatestRelease ex_client owner ''e'' = (True, Some ex_release)"
  "checkLatestRelease ex_client owner ''f'' = (True, Some ex_release)"
  "checkLatestRelease ex_client owner ''g'' = (False, None)"
  "checkLatestRelease ex_client owner ''h'' = (False, None)"
  by (simp_all add: checkLatestRelease_def ex_client_def ex_release_def GetTagName_def)

lemma ex_release_fields:
  "GetTagName (Some ex_release) = ''v1''" "GetPublishedAt (Some ex_release) = 100"
  by (simp_all add: ex_release_def GetTagName_def GetPublishedAt_def)

lemma ex_Get:
  "Get ex_client owner ''d'' = Inl (Error ''500 Internal Server Error'')"
  "name \<noteq> ''d'' \<Longrightarrow> Get ex_client owner name
     = Inr (Some \<lparr>repo_Name = Some name, repo_DefaultBranch = Some ''main'', repo_HTMLURL = None\<rparr>)"
  by (simp_all add: ex_client_def)

lemma ex_detail_fields:
  "repo_GetDefaultBranch (Some \<lparr>repo_Name = Some name, repo_DefaultBranch = Some ''main'', repo_HTMLURL = None\<rparr>) = ''main''"
  "repo_GetHTMLURL (Some \<lparr>repo_Name = Some name, repo_DefaultBranch = Some ''main'', repo_HTMLURL = None\<rparr>) = []"
  by (simp_all add: repo_GetDefaultBranch_def repo_GetHTMLURL_def)

lemma ex_compare:
  "compareAllCommits ex_client owner ''a'' base head =
     Some (Inr [raw_commit None (Some ''Bob'') 1, raw_commit None None 2,
                raw_commit (Some ''alice'') (Some ''Alice Smith'') 3])"
  "compareAllCommits ex_client owner ''c'' base head = Some (Inr [])"
  "compareAllCommits ex_client owner ''f'' base head = Some (Inr [])"
  "compareAllCommits ex_client owner ''e'' base head = Some (Inl (Error ''502 Bad Gateway''))"
proof -
  show "compareAllCommits ex_client owner ''a'' base head =
     Some (Inr [raw_commit None (Some ''Bob'') 1, raw_commit None None 2,
                raw_commit (Some ''alice'') (Some ''Alice Smith'') 3])"
    by (rule compareAllCommits_paged) (simp add: ex_client_def)
  show "compareAllCommits ex_client owner ''c'' base head = Some (Inr [])"
    by (rule compareAllCommits_paged) (simp add: ex_client_def)
  show "compareAllCommits ex_client owner ''f'' base head = Some (Inr [])"
    by (rule compareAllCommits_paged) (simp add: ex_client_def)
  show "compareAllCommits ex_client owner ''e'' base head = Some (Inl (Error ''502 Bad Gateway''))"
    unfolding compareAllCommits_def
    by (subst compareAllCommits_loop.simps) (simp add: ex_client_def)
qed

lemma ex_world_fields:
  "github ex_world = ex_client" "GITHUB_TOKEN ex_world = ''token''" "mkdir_err ex_world = None"
  "now ex_world = 1000"
  "create_err ex_world f = (if f = snapshot_path ''f'' then Some (Error ''permission denied'') else None)"
  "encode_err ex_world f = (if f = timestamp_path then Some (Error ''no space left on device'') else None)"
  by (simp_all add: ex_world_def)

lemma ex_paths:
  "snapshot_path ''c'' \<noteq> snapshot_path ''f''" "snapshot_path ''a'' \<noteq> snapshot_path ''f''"
  "snapshot_path ''c'' \<noteq> timestamp_path" "snapshot_path ''a'' \<noteq> timestamp_path"
  "snapshot_path ''f'' \<noteq> timestamp_path"
  by (simp_all add: snapshot_path_plain timestamp_path_plain)

lemma ex_list:
  "listPublicRepos ex_client owner 0
     = Some (Inr (map ex_repo [''a'', ''b'', ''c'', ''d'', ''e'', ''f'', ''g'', ''h'']))"
  "listPublicRepos ex_client owner 1 = Some (Inr [ex_repo ''a''])"
proof -
  have src: "ListByOrg ex_client owner
      = (\<lambda>opt. Inr (paged (map ex_repo [''a'', ''b'', ''c'', ''d'', ''e'', ''f'', ''g'', ''h'']) (ListOptions opt)))"
    by (simp add: ex_client_def)
  show "listPublicRepos ex_client owner 0
     = Some (Inr (map ex_repo [''a'', ''b'', ''c'', ''d'', ''e'', ''f'', ''g'', ''h'']))"
    using listPublicRepos_paged [OF src, of 0] by simp
  show "listPublicRepos ex_client owner 1 = Some (Inr [ex_repo ''a''])"
    using listPublicRepos_paged [OF src, of 1] by simp
qed

lemma ex_token: "TrimSpace (GITHUB_TOKEN ex_world) \<noteq> []"
  by (simp add: ex_world_fields token_trimmed)

lemma ex_completes:
  "\<forall>r \<in> set (map ex_repo [''a'', ''b'', ''c'', ''d'', ''e'', ''f'', ''g'', ''h'']). repo_completes ex_world owner r"
  by (simp add: repo_completes_def Let_def ex_world_fields ex_names ex_check ex_Get ex_compare
        ex_release_fields ex_detail_fields raw_commit_def)

lemma ex_failures:
  "repo_failure ex_world owner (ex_repo ''d'') = Some DetailLookupFailed"
  "repo_failure ex_world owner (ex_repo ''e'') = Some CommitCollectionFailed"
  "repo_failure ex_world owner (ex_repo ''f'') = Some PersistenceFailed"
  by (simp_all add: repo_failure_def Let_def ex_world_fields ex_names ex_check ex_Get ex_compare
        ex_release_fields ex_detail_fields)

lemma ex_timestamp_write:
  "writeJSON ex_world fs timestamp_path data
     = (Some (Error ''no space left on device''), fs(timestamp_path \<mapsto> Truncated))"
  using ex_paths(5) by (simp add: writeJSON_def ex_world_fields)

text \<open>Runs against the simulated source, where no repository has a release.\<close>

lemma sim_world_fields:
  "github (sim_world repos) = sim_client repos []" "GITHUB_TOKEN (sim_world repos) = ''token''"
  "mkdir_err (sim_world repos) = None" "now (sim_world repos) = 1000"
  "create_err (sim_world repos) f = None" "encode_err (sim_world repos) f = None"
  by (simp_all add: sim_world_def)

lemma sim_check: "checkLatestRelease (sim_client repos commits) owner name = (False, None)"
  by (simp add: checkLatestRelease_def sim_client_def)

lemma sim_token: "TrimSpace (GITHUB_TOKEN (sim_world repos)) \<noteq> []"
  by (simp add: sim_world_fields token_trimmed)

lemma sim_list: "listPublicRepos (sim_client repos commits) owner 0 = Some (Inr repos)"
  using listPublicRepos_paged [OF sim_client_ListByOrg, of repos commits owner 0] by simp

lemma sim_finish:
  "finish (sim_world repos) st
     = st\<lparr>files := (files st)(timestamp_path \<mapsto> Encoded (TimestampJSON \<lparr>LastCrawled = 1000\<rparr>)),
          out := out st @ [RecordedTimestamp 1000, CrawlComplete (processedCount st)]\<rparr>"
  by (simp add: finish_def writeJSON_def sim_world_fields emit_def Let_def)

lemma sim_run_skip:
  "runCrawl (sim_world [ex_repo ''b'']) Map.empty ''org'' 0
     = Some (Inr \<lparr>files = [timestamp_path \<mapsto> Encoded (TimestampJSON \<lparr>LastCrawled = 1000\<rparr>)],
                  out = [FetchingRepositories ''org'', FoundRepositories 1, Processing 1 1 ''b'',
                         SkippingNoReleases ''b'', RecordedTimestamp 1000, CrawlComplete 0],
                  processedCount = 0\<rparr>)"
proof -
  have s: "\<And>st n i. processRepo (sim_world [ex_repo ''b'']) ''org'' n st i (ex_repo ''b'')
      = Some (Inr (emit (SkippingNoReleases ''b'') (emit (Processing (i + 1) n ''b'') st)))"
    using processRepo_skip [of "sim_world [ex_repo ''b'']" "''org''" "ex_repo ''b''"]
    by (simp add: sim_world_fields sim_check ex_names)
  show ?thesis
    using sim_token [of "[ex_repo ''b'']"]
    by (simp add: runCrawl_def Let_def sim_world_fields(1,3) sim_list s sim_finish emit_def)
qed

lemma sim_run_empty:
  "runCrawl (sim_world []) Map.empty ''org'' 0
     = Some (Inr \<lparr>files = [timestamp_path \<mapsto> Encoded (TimestampJSON \<lparr>LastCrawled = 1000\<rparr>)],
                  out = [FetchingRepositories ''org'', FoundRepositories 0,
                         RecordedTimestamp 1000, CrawlComplete 0],
                  processedCount = 0\<rparr>)"
  using sim_token [of "[]"]
  by (simp add: runCrawl_def Let_def sim_world_fields(1,3) sim_list sim_finish emit_def)

subsection \<open>Claims on skipping and persisting\<close>

text \<open>
  Claim C5. When the release resolution yields no release for a repository, its
  iteration returns with no file written or changed, so no snapshot, with or without
  data, exists for it; the loop goes on with the next repository. The iteration
  prints the skip line and nothing else after the progress line: the number of skip
  lines grows by one, the number of error lines and of saved lines and
  \<open>processedCount\<close> stay as they were.
\<close>

theorem skip_on_no_release:
  assumes "\<not> fst (checkLatestRelease (github w) owner (repo_GetName repo))"
  shows "\<exists>st'. processRepo w owner n st i repo = Some (Inr st')
     \<and> crawl_loop w owner n st i (repo # rest) = crawl_loop w owner n st' (i + 1) rest
     \<and> files st' = files st
     \<and> processedCount st' = processedCount st
     \<and> out st' = out st @ [Processing (i + 1) n (repo_GetName repo), SkippingNoReleases (repo_GetName repo)]
     \<and> skips (out st') = skips (out st) + 1
     \<and> failures (out st') = failures (out st)
     \<and> saves (out st') = saves (out st)"
proof -
  let ?st' = "emit (SkippingNoReleases (repo_GetName repo))
                (emit (Processing (i + 1) n (repo_GetName repo)) st)"
  have s: "processRepo w owner n st i repo = Some (Inr ?st')"
    by (rule processRepo_skip [OF assms])
  have "crawl_loop w owner n st i (repo # rest) = crawl_loop w owner n ?st' (i + 1) rest"
    by (simp add: s)
  moreover have "files ?st' = files st" "processedCount ?st' = processedCount st"
    "out ?st' = out st @ [Processing (i + 1) n (repo_GetName repo), SkippingNoReleases (repo_GetName repo)]"
    by (simp_all add: emit_def)
  moreover have "skips (out ?st') = skips (out st) + 1" "failures (out ?st') = failures (out st)"
    "saves (out ?st') = saves (out st)"
    by (simp_all add: emit_def skips_def failures_def saves_def)
  ultimately show ?thesis using s by blast
qed

theorem skip_on_no_release_witness:
  "\<not> fst (checkLatestRelease (github ex_world) ''org'' (repo_GetName (ex_repo ''b'')))
   \<and> processRepo ex_world ''org'' 8 \<lparr>files = Map.empty, out = [], processedCount = 0\<rparr> 1 (ex_repo ''b'')
       = Some (Inr \<lparr>files = Map.empty,
                    out = [Processing 2 8 ''b'', SkippingNoReleases ''b''],
                    processedCount = 0\<rparr>)"
proof -
  let ?st = "\<lparr>files = Map.empty, out = [], processedCount = 0\<rparr>"
  have h: "\<not> fst (checkLatestRelease (github ex_world) ''org'' (repo_GetName (ex_repo ''b'')))"
    by (simp add: ex_world_fields ex_names ex_check)
  from skip_on_no_release [OF h, of 8 ?st 1 "[]"] obtain st' where
    "processRepo ex_world ''org'' 8 ?st 1 (ex_repo ''b'') = Some (Inr st')"
    "files st' = Map.empty" "processedCount st' = 0"
    "out st' = [Processing 2 8 ''b'', SkippingNoReleases ''b'']"
    by (auto simp: ex_names)
  with h show ?thesis by simp
qed

text \<open>
  Claim C8. When a repository has a latest release and the comparison returns no
  commits, and the snapshot file can be written, the iteration writes a snapshot of
  the repository whose commit list is empty, prints the saved line with the count 0,
  and adds one to \<open>processedCount\<close>; it prints no skip line and no error line.
\<close>

theorem empty_comparison_persisted:
  assumes "checkLatestRelease (github w) owner (repo_GetName repo) = (True, rel)"
    and "Get (github w) owner (repo_GetName repo) = Inr detail"
    and "compareAllCommits (github w) owner (repo_GetName repo) (GetTagName rel)
           (repo_GetDefaultBranch detail) = Some (Inr [])"
    and "create_err w (snapshot_path (repo_GetName repo)) = None"
    and "encode_err w (snapshot_path (repo_GetName repo)) = None"
  shows "\<exists>st' d. processRepo w owner n st i repo = Some (Inr st')
     \<and> files st' = (files st)(snapshot_path (repo_GetName repo) \<mapsto> Encoded (RepoJSON d))
     \<and> UnreleasedCommits d = []
     \<and> Name d = repo_GetName repo \<and> LatestReleaseTag d = GetTagName rel
     \<and> processedCount st' = processedCount st + 1
     \<and> saves (out st') = saves (out st) + 1
     \<and> skips (out st') = skips (out st)
     \<and> failures (out st') = failures (out st)
     \<and> last (out st') = Saved 0 (snapshot_path (repo_GetName repo))"
proof -
  let ?d = "\<lparr>Owner = owner, Name = repo_GetName repo, DefaultBranch = repo_GetDefaultBranch detail,
             LatestReleaseTag = GetTagName rel, LatestReleaseTime = GetPublishedAt rel,
             UnreleasedCommits = [], RepositoryURL = repo_GetHTMLURL detail\<rparr>"
  have d: "normalize owner (repo_GetName repo) (repo_GetDefaultBranch detail) (GetTagName rel)
           (GetPublishedAt rel) [] (repo_GetHTMLURL detail) = Inr ?d"
    by (simp add: normalize_def reverseCommits_rev)
  have wr: "writeJSON w (files st) (snapshot_path (repo_GetName repo)) (RepoJSON ?d)
        = (None, (files st)(snapshot_path (repo_GetName repo) \<mapsto> Encoded (RepoJSON ?d)))"
    using assms(4,5) by (simp add: writeJSON_def)
  let ?st' = "(emit (Saved 0 (snapshot_path (repo_GetName repo)))
                 ((emit (LatestRelease (GetTagName rel) (GetPublishedAt rel))
                     (emit (Processing (i + 1) n (repo_GetName repo)) st))
                  \<lparr>files := (files st)(snapshot_path (repo_GetName repo) \<mapsto> Encoded (RepoJSON ?d))\<rparr>))
               \<lparr>processedCount := processedCount st + 1\<rparr>"
  have p: "processRepo w owner n st i repo = Some (Inr ?st')"
    using processRepo_write [OF assms(1,2,3) d wr, of n i] by (simp add: Let_def)
  show ?thesis
    apply (rule exI [of _ ?st'])
    apply (rule exI [of _ ?d])
    apply (simp add: p emit_def saves_def skips_def failures_def)
    done
qed

theorem empty_comparison_persisted_witness:
  "checkLatestRelease (github ex_world) ''org'' (repo_GetName (ex_repo ''c'')) = (True, Some ex_release)
   \<and> compareAllCommits (github ex_world) ''org'' (repo_GetName (ex_repo ''c'')) ''v1'' ''main'' = Some (Inr [])
   \<and> (\<exists>st' d. processRepo ex_world ''org'' 8 \<lparr>files = Map.empty, out = [], processedCount = 0\<rparr> 2 (ex_repo ''c'')
               = Some (Inr st')
         \<and> files st' (snapshot_path ''c'') = Some (Encoded (RepoJSON d))
         \<and> UnreleasedCommits d = [] \<and> Name d = ''c'' \<and> LatestReleaseTag d = ''v1''
         \<and> processedCount st' = 1
         \<and> last (out st') = Saved 0 (snapshot_path ''c''))"
proof -
  let ?st = "\<lparr>files = Map.empty, out = [], processedCount = 0\<rparr>"
  let ?detail = "Some \<lparr>repo_Name = Some ''c'', repo_DefaultBranch = Some ''main'', repo_HTMLURL = None\<rparr>"
  have h1: "checkLatestRelease (github ex_world) ''org'' (repo_GetName (ex_repo ''c'')) = (True, Some ex_release)"
    by (simp add: ex_world_fields ex_names ex_check)
  have h2: "Get (github ex_world) ''org'' (repo_GetName (ex_repo ''c'')) = Inr ?detail"
    by (simp add: ex_world_fields ex_names ex_Get)
  have h3: "compareAllCommits (github ex_world) ''org'' (repo_GetName (ex_repo ''c''))
              (GetTagName (Some ex_release)) (repo_GetDefaultBranch ?detail) = Some (Inr [])"
    by (simp add: ex_world_fields ex_names ex_compare)
  have h4: "create_err ex_world (snapshot_path (repo_GetName (ex_repo ''c''))) = None"
    by (simp add: ex_world_fields ex_names ex_paths)
  have h5: "encode_err ex_world (snapshot_path (repo_GetName (ex_repo ''c''))) = None"
    by (simp add: ex_world_fields ex_names ex_paths)
  from empty_comparison_persisted [OF h1 h2 h3 h4 h5, of 8 ?st 2] obtain st' d where
    "processRepo ex_world ''org'' 8 ?st 2 (ex_repo ''c'') = Some (Inr st')"
    "files st' = (files ?st)(snapshot_path ''c'' \<mapsto> Encoded (RepoJSON d))"
    "UnreleasedCommits d = []" "Name d = ''c''" "LatestReleaseTag d = ''v1''"
    "processedCount st' = 1" "last (out st') = Saved 0 (snapshot_path ''c'')"
    by (auto simp: ex_names ex_release_fields)
  moreover from this have "files st' (snapshot_path ''c'') = Some (Encoded (RepoJSON d))"
    by simp
  ultimately show ?thesis
    using h1 h3 by (auto simp: ex_release_fields ex_detail_fields)
qed

subsection \<open>Claims on failures and the summary\<close>

lemma writeJSON_fails:
  "create_err w filename \<noteq> None \<or> encode_err w filename \<noteq> None \<Longrightarrow>
     \<exists>err fs'. writeJSON w fs filename data = (Some err, fs')"
  by (cases "create_err w filename"; cases "encode_err w filename") (auto simp: writeJSON_def)

lemma repo_failure_cases:
  assumes "repo_failure w owner repo = Some kind"
  shows "\<exists>rel. checkLatestRelease (github w) owner (repo_GetName repo) = (True, rel)
     \<and> ((kind = DetailLookupFailed \<and> (\<exists>err. Get (github w) owner (repo_GetName repo) = Inl err))
        \<or> (\<exists>detail. Get (github w) owner (repo_GetName repo) = Inr detail
             \<and> ((kind = CommitCollectionFailed
                   \<and> (\<exists>err. compareAllCommits (github w) owner (repo_GetName repo) (GetTagName rel)
                              (repo_GetDefaultBranch detail) = Some (Inl err)))
                \<or> (kind = PersistenceFailed
                   \<and> (\<exists>commits. compareAllCommits (github w) owner (repo_GetName repo) (GetTagName rel)
                              (repo_GetDefaultBranch detail) = Some (Inr commits)
                        \<and> list_all (\<lambda>c. rc_Commit c \<noteq> None) commits
                        \<and> (create_err w (snapshot_path (repo_GetName repo)) \<noteq> None
                             \<or> encode_err w (snapshot_path (repo_GetName repo)) \<noteq> None))))))"
proof -
  obtain b rel where c: "checkLatestRelease (github w) owner (repo_GetName repo) = (b, rel)"
    by (cases "checkLatestRelease (github w) owner (repo_GetName repo)")
  with assms have b: "b" by (auto simp: repo_failure_def Let_def split: if_splits)
  show ?thesis
  proof (cases "Get (github w) owner (repo_GetName repo)")
    case (Inl err)
    with assms c b show ?thesis by (auto simp: repo_failure_def Let_def)
  next
    case (Inr detail)
    with assms c b show ?thesis
      by (auto simp: repo_failure_def Let_def split: option.splits sum.splits if_splits)
  qed
qed

lemma processRepo_failure:
  assumes "repo_failure w owner repo = Some kind"
  shows "\<exists>st'. processRepo w owner n st i repo = Some (Inr st')
     \<and> processedCount st' = processedCount st
     \<and> failures (out st') = failures (out st) + 1
     \<and> (\<forall>f. f \<noteq> snapshot_path (repo_GetName repo) \<longrightarrow> files st' f = files st f)
     \<and> (kind \<noteq> PersistenceFailed \<longrightarrow> files st' = files st)"
proof -
  from repo_failure_cases [OF assms] obtain rel where
    rel: "checkLatestRelease (github w) owner (repo_GetName repo) = (True, rel)"
    and cases: "(kind = DetailLookupFailed \<and> (\<exists>err. Get (github w) owner (repo_GetName repo) = Inl err))
        \<or> (\<exists>detail. Get (github w) owner (repo_GetName repo) = Inr detail
             \<and> ((kind = CommitCollectionFailed
                   \<and> (\<exists>err. compareAllCommits (github w) owner (repo_GetName repo) (GetTagName rel)
                              (repo_GetDefaultBranch detail) = Some (Inl err)))
                \<or> (kind = PersistenceFailed
                   \<and> (\<exists>commits. compareAllCommits (github w) owner (repo_GetName repo) (GetTagName rel)
                              (repo_GetDefaultBranch detail) = Some (Inr commits)
                        \<and> list_all (\<lambda>c. rc_Commit c \<noteq> None) commits
                        \<and> (create_err w (snapshot_path (repo_GetName repo)) \<noteq> None
                             \<or> encode_err w (snapshot_path (repo_GetName repo)) \<noteq> None)))))"
    by blast
  from cases consider
    (detail) err where "Get (github w) owner (repo_GetName repo) = Inl err"
  | (collect) detail err where "Get (github w) owner (repo_GetName repo) = Inr detail"
      "compareAllCommits (github w) owner (repo_GetName repo) (GetTagName rel)
          (repo_GetDefaultBranch detail) = Some (Inl err)"
  | (persist) detail commits where "Get (github w) owner (repo_GetName repo) = Inr detail"
      "compareAllCommits (github w) owner (repo_GetName repo) (GetTagName rel)
          (repo_GetDefaultBranch detail) = Some (Inr commits)"
      "list_all (\<lambda>c. rc_Commit c \<noteq> None) commits"
      "create_err w (snapshot_path (repo_GetName repo)) \<noteq> None
         \<or> encode_err w (snapshot_path (repo_GetName repo)) \<noteq> None"
    by blast
  then show ?thesis
  proof cases
    case detail
    show ?thesis
      unfolding processRepo_detail_failed [OF rel detail]
      by (simp add: emit_def failures_def)
  next
    case collect
    show ?thesis
      unfolding processRepo_compare_failed [OF rel collect]
      by (simp add: emit_def failures_def)
  next
    case persist
    from normalize_total [OF persist(3)] obtain d where
      d: "normalize owner (repo_GetName repo) (repo_GetDefaultBranch detail) (GetTagName rel)
           (GetPublishedAt rel) commits (repo_GetHTMLURL detail) = Inr d"
      by blast
    from writeJSON_fails [OF persist(4)] obtain err fs where
      wr: "writeJSON w (files st) (snapshot_path (repo_GetName repo)) (RepoJSON d) = (Some err, fs)"
      by blast
    from writeJSON_frame [OF wr] show ?thesis
      unfolding processRepo_write [OF rel persist(1,2) d wr]
      using cases persist(1,2)
      by (auto simp: Let_def emit_def failures_def)
  qed
qed

lemma finish_by_env:
  "create_err w timestamp_path = Some err \<Longrightarrow>
     files (finish w st) = files st
     \<and> out (finish w st) = out st @ [WarnTimestamp err, CrawlComplete (processedCount st)]"
  "create_err w timestamp_path = None \<Longrightarrow> encode_err w timestamp_path = Some err \<Longrightarrow>
     files (finish w st) = (files st)(timestamp_path \<mapsto> Truncated)
     \<and> out (finish w st) = out st @ [WarnTimestamp err, CrawlComplete (processedCount st)]"
  "create_err w timestamp_path = None \<Longrightarrow> encode_err w timestamp_path = None \<Longrightarrow>
     files (finish w st)
       = (files st)(timestamp_path \<mapsto> Encoded (TimestampJSON \<lparr>LastCrawled = now w\<rparr>))
     \<and> out (finish w st) = out st @ [RecordedTimestamp (now w), CrawlComplete (processedCount st)]"
  by (simp_all add: finish_def writeJSON_def emit_def Let_def)

text \<open>What holds of the failures of an iteration and of the final step, path by
  path.\<close>

lemma failure_isolation:
  "(\<forall>kind. repo_failure w owner repo = Some kind \<longrightarrow>
      (\<exists>st'. processRepo w owner n st i repo = Some (Inr st')
         \<and> crawl_loop w owner n st i (repo # rest) = crawl_loop w owner n st' (i + 1) rest
         \<and> processedCount st' = processedCount st
         \<and> failures (out st') = failures (out st) + 1
         \<and> (\<forall>f. f \<noteq> snapshot_path (repo_GetName repo) \<longrightarrow> files st' f = files st f)
         \<and> (kind \<noteq> PersistenceFailed \<longrightarrow> files st' = files st)))
   \<and> (TrimSpace (GITHUB_TOKEN w) \<noteq> [] \<and> mkdir_err w = None
        \<and> listPublicRepos (github w) owner limit = Some (Inr repos)
        \<and> (\<forall>r \<in> set repos. repo_completes w owner r) \<longrightarrow>
      (\<exists>st'. crawl_loop w owner (length repos)
                (emit (FoundRepositories (length repos))
                   (emit (FetchingRepositories owner) \<lparr>files = disk, out = [], processedCount = 0\<rparr>))
                0 repos = Some (Inr st')
         \<and> visited (out st') = map repo_GetName repos
         \<and> runCrawl w disk owner limit = Some (Inr (finish w st'))))
   \<and> processedCount (finish w st) = processedCount st
   \<and> (\<forall>f. f \<noteq> timestamp_path \<longrightarrow> files (finish w st) f = files st f)
   \<and> (\<forall>err. create_err w timestamp_path = Some err \<longrightarrow>
         files (finish w st) = files st
         \<and> out (finish w st) = out st @ [WarnTimestamp err, CrawlComplete (processedCount st)])
   \<and> (\<forall>err. create_err w timestamp_path = None \<and> encode_err w timestamp_path = Some err \<longrightarrow>
         files (finish w st) = (files st)(timestamp_path \<mapsto> Truncated)
         \<and> out (finish w st) = out st @ [WarnTimestamp err, CrawlComplete (processedCount st)])
   \<and> (create_err w timestamp_path = None \<and> encode_err w timestamp_path = None \<longrightarrow>
         files (finish w st)
           = (files st)(timestamp_path \<mapsto> Encoded (TimestampJSON \<lparr>LastCrawled = now w\<rparr>))
         \<and> out (finish w st) = out st @ [RecordedTimestamp (now w), CrawlComplete (processedCount st)])"
proof (intro conjI allI impI)
  fix kind assume "repo_failure w owner repo = Some kind"
  from processRepo_failure [OF this, of n st i] obtain st' where
    s: "processRepo w owner n st i repo = Some (Inr st')"
    and r: "processedCount st' = processedCount st" "failures (out st') = failures (out st) + 1"
      "\<forall>f. f \<noteq> snapshot_path (repo_GetName repo) \<longrightarrow> files st' f = files st f"
      "kind \<noteq> PersistenceFailed \<longrightarrow> files st' = files st"
    by blast
  have "crawl_loop w owner n st i (repo # rest) = crawl_loop w owner n st' (i + 1) rest"
    by (simp add: s)
  with s r show "\<exists>st'. processRepo w owner n st i repo = Some (Inr st')
         \<and> crawl_loop w owner n st i (repo # rest) = crawl_loop w owner n st' (i + 1) rest
         \<and> processedCount st' = processedCount st
         \<and> failures (out st') = failures (out st) + 1
         \<and> (\<forall>f. f \<noteq> snapshot_path (repo_GetName repo) \<longrightarrow> files st' f = files st f)
         \<and> (kind \<noteq> PersistenceFailed \<longrightarrow> files st' = files st)"
    by blast
next
  let ?st0 = "emit (FoundRepositories (length repos))
                (emit (FetchingRepositories owner) \<lparr>files = disk, out = [], processedCount = 0\<rparr>)"
  assume h: "TrimSpace (GITHUB_TOKEN w) \<noteq> [] \<and> mkdir_err w = None
        \<and> listPublicRepos (github w) owner limit = Some (Inr repos)
        \<and> (\<forall>r \<in> set repos. repo_completes w owner r)"
  then obtain st' where l: "crawl_loop w owner (length repos) ?st0 0 repos = Some (Inr st')"
    using crawl_loop_completes [of repos w owner "length repos" ?st0 0] by blast
  from crawl_loop_effect [OF l] have "visited (out st') = visited (out ?st0) @ map repo_GetName repos"
    by blast
  then have v: "visited (out st') = map repo_GetName repos"
    by (simp add: emit_def)
  have "runCrawl w disk owner limit = Some (Inr (finish w st'))"
    using h l by (simp add: runCrawl_def Let_def)
  with l v show "\<exists>st'. crawl_loop w owner (length repos) ?st0 0 repos = Some (Inr st')
         \<and> visited (out st') = map repo_GetName repos
         \<and> runCrawl w disk owner limit = Some (Inr (finish w st'))"
    by blast
qed (simp_all add: finish_effect finish_by_env)

text \<open>Facts of the organization with a repository named \<open>timestamp\<close>.\<close>

lemma col_fields:
  "github collision_world = collision_client" "GITHUB_TOKEN collision_world = ''token''"
  "mkdir_err collision_world = None" "now collision_world = 1000"
  "create_err collision_world f = None" "encode_err collision_world f = None"
  by (simp_all add: collision_world_def)

lemma col_list:
  "listPublicRepos collision_client owner 0 = Some (Inr [ex_repo ''a'', ex_repo ''timestamp''])"
proof -
  have src: "ListByOrg collision_client owner
      = (\<lambda>opt. Inr (paged [ex_repo ''a'', ex_repo ''timestamp''] (ListOptions opt)))"
    by (simp add: collision_client_def)
  show ?thesis
    using listPublicRepos_paged [OF src, of 0] by simp
qed

lemma col_check:
  "checkLatestRelease collision_client owner ''a'' = (True, Some ex_release)"
  "checkLatestRelease collision_client owner ''timestamp'' = (True, Some ex_release)"
  by (simp_all add: checkLatestRelease_def collision_client_def ex_client_def ex_release_def
        GetTagName_def)

lemma col_Get:
  "name \<noteq> ''d'' \<Longrightarrow> Get collision_client owner name
     = Inr (Some \<lparr>repo_Name = Some name, repo_DefaultBranch = Some ''main'', repo_HTMLURL = None\<rparr>)"
  by (simp add: collision_client_def ex_client_def)

lemma col_compare:
  "compareAllCommits collision_client owner ''a'' base head =
     Some (Inr [raw_commit None (Some ''Bob'') 1, raw_commit None None 2,
                raw_commit (Some ''alice'') (Some ''Alice Smith'') 3])"
  "compareAllCommits collision_client owner ''timestamp'' base head = Some (Inr [])"
proof -
  show "compareAllCommits collision_client owner ''a'' base head =
     Some (Inr [raw_commit None (Some ''Bob'') 1, raw_commit None None 2,
                raw_commit (Some ''alice'') (Some ''Alice Smith'') 3])"
    by (rule compareAllCommits_paged) (simp add: collision_client_def ex_client_def)
  show "compareAllCommits collision_client owner ''timestamp'' base head = Some (Inr [])"
    by (rule compareAllCommits_paged) (simp add: collision_client_def ex_client_def)
qed

lemma ex_normalize:
  "normalize ''org'' ''a'' ''main'' ''v1'' 100
     [raw_commit None (Some ''Bob'') 1, raw_commit None None 2,
      raw_commit (Some ''alice'') (Some ''Alice Smith'') 3] []
     = Inr \<lparr>Owner = ''org'', Name = ''a'', DefaultBranch = ''main'', LatestReleaseTag = ''v1'',
            LatestReleaseTime = 100,
            UnreleasedCommits =
              [\<lparr>SHA = [], Author = ''alice'', Message = [], Timestamp = 3, URL = []\<rparr>,
               \<lparr>SHA = [], Author = ''unknown'', Message = [], Timestamp = 2, URL = []\<rparr>,
               \<lparr>SHA = [], Author = ''Bob'', Message = [], Timestamp = 1, URL = []\<rparr>],
            RepositoryURL = []\<rparr>"
  "normalize ''org'' ''timestamp'' ''main'' ''v1'' 100 [] []
     = Inr \<lparr>Owner = ''org'', Name = ''timestamp'', DefaultBranch = ''main'', LatestReleaseTag = ''v1'',
            LatestReleaseTime = 100, UnreleasedCommits = [], RepositoryURL = []\<rparr>"
  by (simp_all add: normalize_def toCommitInfo_def raw_commit_def resolveAuthor_def GetLogin_def
        GetName_def GetSHA_def GetMessage_def GetDate_def GetHTMLURL_def reverseCommits_rev)

lemma col_paths:
  "snapshot_path ''a'' = ''data/a.json''" "snapshot_path ''timestamp'' = ''data/timestamp.json''"
  by (simp_all add: snapshot_path_plain)

lemma col_iterations:
  "processRepo collision_world ''org'' n st i (ex_repo ''a'')
     = Some (Inr (st\<lparr>files := (files st)(''data/a.json'' \<mapsto> Encoded (RepoJSON
            \<lparr>Owner = ''org'', Name = ''a'', DefaultBranch = ''main'', LatestReleaseTag = ''v1'',
             LatestReleaseTime = 100,
             UnreleasedCommits =
               [\<lparr>SHA = [], Author = ''alice'', Message = [], Timestamp = 3, URL = []\<rparr>,
                \<lparr>SHA = [], Author = ''unknown'', Message = [], Timestamp = 2, URL = []\<rparr>,
                \<lparr>SHA = [], Author = ''Bob'', Message = [], Timestamp = 1, URL = []\<rparr>],
             RepositoryURL = []\<rparr>)),
          out := out st @ [Processing (i + 1) n ''a'', LatestRelease ''v1'' 100, Saved 3 ''data/a.json''],
          processedCount := processedCount st + 1\<rparr>))"
  "processRepo collision_world ''org'' n st i (ex_repo ''timestamp'')
     = Some (Inr (st\<lparr>files := (files st)(''data/timestamp.json'' \<mapsto> Encoded (RepoJSON
            \<lparr>Owner = ''org'', Name = ''timestamp'', DefaultBranch = ''main'', LatestReleaseTag = ''v1'',
             LatestReleaseTime = 100, UnreleasedCommits = [], RepositoryURL = []\<rparr>)),
          out := out st @ [Processing (i + 1) n ''timestamp'', LatestRelease ''v1'' 100,
                           Saved 0 ''data/timestamp.json''],
          processedCount := processedCount st + 1\<rparr>))"
  by (simp_all add: processRepo_def Let_def col_fields ex_names col_check col_Get col_compare
        ex_release_fields ex_detail_fields ex_normalize col_paths writeJSON_def emit_def)

text \<open>
  Claim C7 does not hold of the code. The snapshot of a repository is written to
  \<open>data/<name>.json\<close> and the crawl timestamp to \<open>data/timestamp.json\<close>: for a
  repository named \<open>timestamp\<close> the two are one path. A crawl of the repositories
  \<open>a\<close> and \<open>timestamp\<close> in which every write succeeds reports both snapshots
  saved and counts two processed, and ends with the snapshot of \<open>a\<close> and, where
  the snapshot of \<open>timestamp\<close> was written, the timestamp record. When the
  encoding of the timestamp fails after its file was created, the final step prints
  its warning over a snapshot at that path and leaves the file truncated. The step
  that the claim says cannot undo an already written snapshot undoes that one.
\<close>

theorem timestamp_collision:
  "snapshot_path ''timestamp'' = timestamp_path
   \<and> runCrawl collision_world Map.empty ''org'' 0
     = Some (Inr \<lparr>files =
                    [''data/a.json'' \<mapsto> Encoded (RepoJSON
                       \<lparr>Owner = ''org'', Name = ''a'', DefaultBranch = ''main'', LatestReleaseTag = ''v1'',
                        LatestReleaseTime = 100,
                        UnreleasedCommits =
                          [\<lparr>SHA = [], Author = ''alice'', Message = [], Timestamp = 3, URL = []\<rparr>,
                           \<lparr>SHA = [], Author = ''unknown'', Message = [], Timestamp = 2, URL = []\<rparr>,
                           \<lparr>SHA = [], Author = ''Bob'', Message = [], Timestamp = 1, URL = []\<rparr>],
                        RepositoryURL = []\<rparr>),
                     ''data/timestamp.json'' \<mapsto> Encoded (TimestampJSON \<lparr>LastCrawled = 1000\<rparr>)],
                  out =
                    [FetchingRepositories ''org'', FoundRepositories 2,
                     Processing 1 2 ''a'', LatestRelease ''v1'' 100, Saved 3 ''data/a.json'',
                     Processing 2 2 ''timestamp'', LatestRelease ''v1'' 100,
                     Saved 0 ''data/timestamp.json'',
                     RecordedTimestamp 1000, CrawlComplete 2],
                  processedCount = 2\<rparr>)
   \<and> finish ex_world
        \<lparr>files = [snapshot_path ''timestamp'' \<mapsto> Encoded (RepoJSON
                    \<lparr>Owner = ''org'', Name = ''timestamp'', DefaultBranch = ''main'',
                     LatestReleaseTag = ''v1'', LatestReleaseTime = 100, UnreleasedCommits = [],
                     RepositoryURL = []\<rparr>)],
         out = [Saved 0 (snapshot_path ''timestamp'')], processedCount = 1\<rparr>
     = \<lparr>files = [''data/timestamp.json'' \<mapsto> Truncated],
        out = [Saved 0 ''data/timestamp.json'',
               WarnTimestamp (Error ''no space left on device''), CrawlComplete 1],
        processedCount = 1\<rparr>"
proof -
  have p: "snapshot_path ''timestamp'' = timestamp_path"
    by (simp add: col_paths timestamp_path_plain)
  have t: "TrimSpace (GITHUB_TOKEN collision_world) \<noteq> []"
    by (simp add: col_fields token_trimmed)
  have run: "runCrawl collision_world Map.empty ''org'' 0
     = Some (Inr \<lparr>files =
                    [''data/a.json'' \<mapsto> Encoded (RepoJSON
                       \<lparr>Owner = ''org'', Name = ''a'', DefaultBranch = ''main'', LatestReleaseTag = ''v1'',
                        LatestReleaseTime = 100,
                        UnreleasedCommits =
                          [\<lparr>SHA = [], Author = ''alice'', Message = [], Timestamp = 3, URL = []\<rparr>,
                           \<lparr>SHA = [], Author = ''unknown'', Message = [], Timestamp = 2, URL = []\<rparr>,
                           \<lparr>SHA = [], Author = ''Bob'', Message = [], Timestamp = 1, URL = []\<rparr>],
                        RepositoryURL = []\<rparr>),
                     ''data/timestamp.json'' \<mapsto> Encoded (TimestampJSON \<lparr>LastCrawled = 1000\<rparr>)],
                  out =
                    [FetchingRepositories ''org'', FoundRepositories 2,
                     Processing 1 2 ''a'', LatestRelease ''v1'' 100, Saved 3 ''data/a.json'',
                     Processing 2 2 ''timestamp'', LatestRelease ''v1'' 100,
                     Saved 0 ''data/timestamp.json'',
                     RecordedTimestamp 1000, CrawlComplete 2],
                  processedCount = 2\<rparr>)"
    using t
    by (simp add: runCrawl_def Let_def col_fields(1,3) col_list col_iterations finish_def
          writeJSON_def col_fields(4,5,6) timestamp_path_plain emit_def)
  have fin: "finish ex_world
        \<lparr>files = [snapshot_path ''timestamp'' \<mapsto> Encoded (RepoJSON
                    \<lparr>Owner = ''org'', Name = ''timestamp'', DefaultBranch = ''main'',
                     LatestReleaseTag = ''v1'', LatestReleaseTime = 100, UnreleasedCommits = [],
                     RepositoryURL = []\<rparr>)],
         out = [Saved 0 (snapshot_path ''timestamp'')], processedCount = 1\<rparr>
     = \<lparr>files = [''data/timestamp.json'' \<mapsto> Truncated],
        out = [Saved 0 ''data/timestamp.json'',
               WarnTimestamp (Error ''no space left on device''), CrawlComplete 1],
        processedCount = 1\<rparr>"
    by (simp add: finish_def Let_def ex_timestamp_write [unfolded timestamp_path_plain] col_paths
          timestamp_path_plain ex_world_fields emit_def)
  show ?thesis using p run fin by blast
qed

text \<open>
  Claim C9, amended. At the end of every crawl that returns, the last line printed is
  the summary, and the one count it reports is \<open>processedCount\<close>, the number of
  snapshots saved. The skipped repositories are reported by one line each while the
  loop runs, as many lines as there are enumerated repositories without a release; no
  count of them is kept or printed.
\<close>

theorem summary_reports_processed:
  assumes "runCrawl w disk owner limit = Some (Inr st)"
  shows "\<exists>repos. listPublicRepos (github w) owner limit = Some (Inr repos)
     \<and> last (out st) = CrawlComplete (processedCount st)
     \<and> processedCount st = saves (out st)
     \<and> skips (out st) =
          length (filter (\<lambda>repo. \<not> fst (checkLatestRelease (github w) owner (repo_GetName repo))) repos)"
proof -
  from runCrawl_returns [OF assms] obtain repos st' where
    ls: "listPublicRepos (github w) owner limit = Some (Inr repos)"
    and l: "crawl_loop w owner (length repos)
          (emit (FoundRepositories (length repos))
             (emit (FetchingRepositories owner) \<lparr>files = disk, out = [], processedCount = 0\<rparr>)) 0 repos
          = Some (Inr st')"
    and st: "st = finish w st'"
    by blast
  from crawl_loop_effect [OF l] have
    p: "processedCount st' = saves (out st')"
    and k: "skips (out st') =
          length (filter (\<lambda>repo. \<not> fst (checkLatestRelease (github w) owner (repo_GetName repo))) repos)"
    by (simp_all add: emit_def saves_def skips_def)
  from finish_out [of w st'] obtain e where
    o: "out (finish w st') = out st' @ [e, CrawlComplete (processedCount st')]"
    and e: "\<not> is_saved e" "\<not> is_skip e"
    by blast
  have "last (out st) = CrawlComplete (processedCount st)"
    using o st by (simp add: finish_effect)
  moreover have "processedCount st = saves (out st)"
    using o e p st by (simp add: finish_effect saves_def)
  moreover have "skips (out st) =
          length (filter (\<lambda>repo. \<not> fst (checkLatestRelease (github w) owner (repo_GetName repo))) repos)"
    using o e k st by (simp add: skips_def)
  ultimately show ?thesis using ls by blast
qed

theorem summary_reports_processed_witness:
  "runCrawl (sim_world [ex_repo ''b'']) Map.empty ''org'' 0
     = Some (Inr \<lparr>files = [timestamp_path \<mapsto> Encoded (TimestampJSON \<lparr>LastCrawled = 1000\<rparr>)],
                  out = [FetchingRepositories ''org'', FoundRepositories 1, Processing 1 1 ''b'',
                         SkippingNoReleases ''b'', RecordedTimestamp 1000, CrawlComplete 0],
                  processedCount = 0\<rparr>)
   \<and> saves [FetchingRepositories ''org'', FoundRepositories 1, Processing 1 1 ''b'',
             SkippingNoReleases ''b'', RecordedTimestamp 1000, CrawlComplete 0] = 0
   \<and> skips [FetchingRepositories ''org'', FoundRepositories 1, Processing 1 1 ''b'',
             SkippingNoReleases ''b'', RecordedTimestamp 1000, CrawlComplete 0] = 1"
proof -
  from summary_reports_processed [OF sim_run_skip]
  have "saves [FetchingRepositories ''org'', FoundRepositories 1, Processing 1 1 ''b'',
             SkippingNoReleases ''b'', RecordedTimestamp 1000, CrawlComplete 0] = 0
   \<and> skips [FetchingRepositories ''org'', FoundRepositories 1, Processing 1 1 ''b'',
             SkippingNoReleases ''b'', RecordedTimestamp 1000, CrawlComplete 0] = 1"
    by (auto simp: sim_world_fields sim_list sim_check)
  with sim_run_skip show ?thesis by blast
qed

text \<open>As first stated, the claim has the summary report the count of skipped
  repositories as well. Two crawls, one that skips a repository and one that skips
  none, end with the same summary line.\<close>

theorem summary_skip_count_counterexample:
  "map_option (map_sum id out) (runCrawl (sim_world [ex_repo ''b'']) Map.empty ''org'' 0)
     = Some (Inr [FetchingRepositories ''org'', FoundRepositories 1, Processing 1 1 ''b'',
                  SkippingNoReleases ''b'', RecordedTimestamp 1000, CrawlComplete 0])
   \<and> map_option (map_sum id out) (runCrawl (sim_world []) Map.empty ''org'' 0)
     = Some (Inr [FetchingRepositories ''org'', FoundRepositories 0,
                  RecordedTimestamp 1000, CrawlComplete 0])
   \<and> skips [FetchingRepositories ''org'', FoundRepositories 1, Processing 1 1 ''b'',
             SkippingNoReleases ''b'', RecordedTimestamp 1000, CrawlComplete 0] = 1
   \<and> skips [FetchingRepositories ''org'', FoundRepositories 0,
             RecordedTimestamp 1000, CrawlComplete 0] = 0"
  by (simp add: sim_run_skip sim_run_empty skips_def)

end
